theory Spec2Isabelle
  imports Complex_Main "HOL-Library.Multiset"
begin

section \<open>Python containers used by the Indexador and the Buscador\<close>

text \<open>
  A Python \<open>dict\<close> keeps its keys in insertion order, and the ranking of the Buscador
  depends on that order, so a dict is an association list whose keys are pairwise
  different. Python's \<open>float\<close> is read as a real number: \<open>math.log10\<close> is \<open>log 10\<close> and
  \<open>math.sqrt\<close> is \<open>sqrt\<close>. Document ids are whatever \<open>ast.literal_eval\<close> returned; no
  function below computes with them, so their type is a parameter \<open>'d\<close>.
\<close>

type_synonym ('k, 'v) dict = "('k \<times> 'v) list"

text \<open>\<open>k in d\<close>\<close>

definition dict_in :: "'k \<Rightarrow> ('k, 'v) dict \<Rightarrow> bool" where
  "dict_in k d = (map_of d k \<noteq> None)"

text \<open>\<open>d.get(k, padrao)\<close>: never inserts, also on a \<open>defaultdict\<close>.\<close>

definition dict_get :: "('k, 'v) dict \<Rightarrow> 'k \<Rightarrow> 'v \<Rightarrow> 'v" where
  "dict_get d k padrao = (case map_of d k of None \<Rightarrow> padrao | Some v \<Rightarrow> v)"

text \<open>\<open>d[k] = v\<close>: an existing key keeps its position, a new key goes to the end.\<close>

fun dict_set :: "('k, 'v) dict \<Rightarrow> 'k \<Rightarrow> 'v \<Rightarrow> ('k, 'v) dict" where
  "dict_set [] k v = [(k, v)]"
| "dict_set ((k', v') # resto) k v =
     (if k' = k then (k', v) # resto else (k', v') # dict_set resto k v)"

text \<open>
  \<open>d[k]\<close> on a \<open>defaultdict\<close> whose factory returns \<open>padrao\<close>: a missing key is inserted
  with the default value, so reading can change the dict. The result is the value read
  and the dict afterwards.
\<close>

definition dd_getitem :: "('k, 'v) dict \<Rightarrow> 'v \<Rightarrow> 'k \<Rightarrow> 'v \<times> ('k, 'v) dict" where
  "dd_getitem d padrao k =
     (case map_of d k of
        None \<Rightarrow> (padrao, dict_set d k padrao)
      | Some v \<Rightarrow> (v, d))"

text \<open>\<open>d[k] += x\<close> on a \<open>defaultdict\<close> with default \<open>padrao\<close>.\<close>

definition dd_add :: "('k, 'v::plus) dict \<Rightarrow> 'v \<Rightarrow> 'k \<Rightarrow> 'v \<Rightarrow> ('k, 'v) dict" where
  "dd_add d padrao k x =
     (let (v, d') = dd_getitem d padrao k in dict_set d' k (v + x))"

text \<open>\<open>sorted(xs, key=chave, reverse=True)\<close>: CPython reverses the list, sorts it with its
  stable ascending sort and reverses the result, so that equal keys keep their order.\<close>

definition sorted_reverse :: "('a \<Rightarrow> 'b::linorder) \<Rightarrow> 'a list \<Rightarrow> 'a list" where
  "sorted_reverse chave xs = rev (sort_key chave (rev xs))"

text \<open>\<open>s.split()\<close>: the maximal runs of characters that are not whitespace. The
  whitespace characters of Python below code point 256 are 9 to 13, 28 to 32, 133
  and 160.\<close>

definition isspace :: "char \<Rightarrow> bool" where
  "isspace c = (let n = of_char c :: nat in
     (9 \<le> n \<and> n \<le> 13) \<or> (28 \<le> n \<and> n \<le> 32) \<or> n = 133 \<or> n = 160)"

fun split_aux :: "string \<Rightarrow> string \<Rightarrow> string list" where
  "split_aux atual [] = (if atual = [] then [] else [rev atual])"
| "split_aux atual (c # cs) =
     (if isspace c
      then (if atual = [] then split_aux [] cs else rev atual # split_aux [] cs)
      else split_aux (c # atual) cs)"

definition split :: "string \<Rightarrow> string list" where
  "split s = split_aux [] s"

datatype error = FileNotFoundError | StopIteration | ValueError | ZeroDivisionError | TypeError

section \<open>Indexador\<close>

record 'd indexador =
  lista_invertida :: "(string, 'd list) dict"
  documentos :: "'d set"
  modelo :: "(string, ('d, real) dict) dict"
  normas_documentos :: "('d, real) dict"

text \<open>The state after \<open>__init__\<close>.\<close>

definition indexador_init :: "'d indexador" where
  "indexador_init =
     \<lparr>lista_invertida = [], documentos = {}, modelo = [], normas_documentos = []\<rparr>"

subsection \<open>\<open>_carregar_lista_invertida\<close>\<close>

text \<open>
  The file is the list of records that \<open>csv.reader\<close> yields, each a list of fields, or
  \<open>None\<close> when it cannot be opened.

  What \<open>ast.literal_eval\<close> returns is, as far as the Indexador uses it, either a value
  that can be iterated, given by the sequence of its elements (those of a list or a
  tuple, the characters of a string, the keys of a dict), or a value that cannot (a
  number, \<open>None\<close>).
\<close>

datatype 'd literal = Iteravel "'d list" | NaoIteravel

text \<open>
  \<open>ast.literal_eval\<close> is the parameter \<open>literal_eval\<close>: it returns the value written in the
  field or the error raised by the evaluation. \<open>self.documentos.update(lista_docs)\<close>
  inserts the elements into a set: it raises \<open>TypeError\<close> on a value that cannot be
  iterated and on an element that is not hashable (a list, a dict, a set). Which values
  are hashable is the parameter \<open>hashable\<close>. An exception leaves the loop, so the
  assignment to \<open>self.lista_invertida\<close> before a failing \<open>update\<close> is not seen.
\<close>

fun carregar_linhas ::
  "(string \<Rightarrow> error + 'd literal) \<Rightarrow> ('d \<Rightarrow> bool) \<Rightarrow> 'd indexador \<Rightarrow> string list list
    \<Rightarrow> error + 'd indexador"
where
  "carregar_linhas literal_eval hashable st [] = Inr st"
| "carregar_linhas literal_eval hashable st (linha # resto) =
     (case linha of
        [palavra, lista_docs_str] \<Rightarrow>
          (case literal_eval lista_docs_str of
             Inl e \<Rightarrow> Inl e
           | Inr NaoIteravel \<Rightarrow> Inl TypeError
           | Inr (Iteravel lista_docs) \<Rightarrow>
               if list_all hashable lista_docs
               then carregar_linhas literal_eval hashable
                      (st\<lparr>lista_invertida := dict_set (lista_invertida st) palavra lista_docs,
                          documentos := documentos st \<union> set lista_docs\<rparr>)
                      resto
               else Inl TypeError)
      | _ \<Rightarrow> Inl ValueError)"

definition carregar_lista_invertida ::
  "(string \<Rightarrow> error + 'd literal) \<Rightarrow> ('d \<Rightarrow> bool) \<Rightarrow> string list list option
    \<Rightarrow> 'd indexador \<Rightarrow> error + 'd indexador"
where
  "carregar_lista_invertida literal_eval hashable arquivo st =
     (case arquivo of
        None \<Rightarrow> Inl FileNotFoundError
      | Some [] \<Rightarrow> Inl StopIteration
      | Some (cabecalho # linhas) \<Rightarrow> carregar_linhas literal_eval hashable st linhas)"

subsection \<open>\<open>_calcular_pesos\<close>\<close>

text \<open>The loop that counts \<open>frequencia_termo_doc\<close>, a \<open>defaultdict(int)\<close> that starts
  empty.\<close>

fun contar_frequencia :: "('d, nat) dict \<Rightarrow> 'd list \<Rightarrow> ('d, nat) dict" where
  "contar_frequencia frequencia_termo_doc [] = frequencia_termo_doc"
| "contar_frequencia frequencia_termo_doc (doc_id # resto) =
     contar_frequencia (dd_add frequencia_termo_doc 0 doc_id 1) resto"

text \<open>\<open>self.modelo[palavra][doc_id] = peso_tfidf\<close>, where \<open>self.modelo\<close> is a
  \<open>defaultdict(dict)\<close>.\<close>

definition modelo_set ::
  "(string, ('d, real) dict) dict \<Rightarrow> string \<Rightarrow> 'd \<Rightarrow> real \<Rightarrow> (string, ('d, real) dict) dict"
where
  "modelo_set m palavra doc_id peso =
     (let (pesos, m') = dd_getitem m [] palavra
      in dict_set m' palavra (dict_set pesos doc_id peso))"

text \<open>The loop over \<open>frequencia_termo_doc.items()\<close> that stores the weights of one term.\<close>

fun gravar_pesos ::
  "real \<Rightarrow> string \<Rightarrow> (string, ('d, real) dict) dict \<Rightarrow> ('d, nat) dict
    \<Rightarrow> (string, ('d, real) dict) dict"
where
  "gravar_pesos idf palavra m [] = m"
| "gravar_pesos idf palavra m ((doc_id, freq) # resto) =
     (let tf = 1 + log 10 (real freq);
          peso_tfidf = tf * idf
      in gravar_pesos idf palavra (modelo_set m palavra doc_id peso_tfidf) resto)"

text \<open>The body of the loop over \<open>self.lista_invertida.items()\<close>. The division raises
  when the sequence of the term is empty.\<close>

definition pesos_palavra ::
  "nat \<Rightarrow> (string, ('d, real) dict) dict \<Rightarrow> string \<Rightarrow> 'd list
    \<Rightarrow> error + (string, ('d, real) dict) dict"
where
  "pesos_palavra num_total_documentos m palavra lista_docs =
     (let num_docs_com_palavra = card (set lista_docs) in
      if num_docs_com_palavra = 0 then Inl ZeroDivisionError
      else
        let idf = log 10 (real num_total_documentos / real num_docs_com_palavra);
            frequencia_termo_doc = contar_frequencia [] lista_docs
        in Inr (gravar_pesos idf palavra m frequencia_termo_doc))"

fun calcular_tfidf ::
  "nat \<Rightarrow> (string, ('d, real) dict) dict \<Rightarrow> (string, 'd list) dict
    \<Rightarrow> error + (string, ('d, real) dict) dict"
where
  "calcular_tfidf n m [] = Inr m"
| "calcular_tfidf n m ((palavra, lista_docs) # resto) =
     (case pesos_palavra n m palavra lista_docs of
        Inl e \<Rightarrow> Inl e
      | Inr m' \<Rightarrow> calcular_tfidf n m' resto)"

text \<open>The second pass. The inner loop adds the squares of the weights of one term, the
  outer loop runs over the keys of the whole weight table (\<open>self.modelo[palavra]\<close> is read
  under a key that is present), then the root of every entry is taken.\<close>

fun somar_pesos :: "('d, real) dict \<Rightarrow> ('d, real) dict \<Rightarrow> ('d, real) dict" where
  "somar_pesos normas [] = normas"
| "somar_pesos normas ((doc_id, peso) # resto) =
     somar_pesos (dd_add normas 0 doc_id (peso ^ 2)) resto"

fun somar_quadrados ::
  "(string, ('d, real) dict) dict \<Rightarrow> ('d, real) dict \<Rightarrow> string list \<Rightarrow> ('d, real) dict"
where
  "somar_quadrados m normas [] = normas"
| "somar_quadrados m normas (palavra # resto) =
     somar_quadrados m (somar_pesos normas (dict_get m palavra [])) resto"

definition tirar_raizes :: "('d, real) dict \<Rightarrow> ('d, real) dict" where
  "tirar_raizes normas =
     foldl (\<lambda>normas doc_id. dict_set normas doc_id (sqrt (dict_get normas doc_id 0)))
       normas (map fst normas)"

definition calcular_pesos :: "'d indexador \<Rightarrow> error + 'd indexador" where
  "calcular_pesos st =
     (let num_total_documentos = card (documentos st) in
      if num_total_documentos = 0 then Inr st
      else
        case calcular_tfidf num_total_documentos (modelo st) (lista_invertida st) of
          Inl e \<Rightarrow> Inl e
        | Inr m \<Rightarrow>
            Inr (st\<lparr>modelo := m,
                    normas_documentos :=
                      tirar_raizes (somar_quadrados m (normas_documentos st) (map fst m))\<rparr>))"

subsection \<open>\<open>_salvar_modelo\<close> and \<open>executar\<close>\<close>

text \<open>What is written to the model file: nothing when the weight table is empty.\<close>

definition salvar_modelo ::
  "'d indexador \<Rightarrow> ((string, ('d, real) dict) dict \<times> ('d, real) dict) option"
where
  "salvar_modelo st =
     (if modelo st = [] then None else Some (modelo st, normas_documentos st))"

text \<open>
  \<open>executar\<close>, after the configuration has been read: any exception of a stage ends the
  run before \<open>_salvar_modelo\<close>. The result is the content of the model file, \<open>None\<close> when
  no file was written.
\<close>

definition executar ::
  "(string \<Rightarrow> error + 'd literal) \<Rightarrow> ('d \<Rightarrow> bool) \<Rightarrow> string list list option
    \<Rightarrow> ((string, ('d, real) dict) dict \<times> ('d, real) dict) option"
where
  "executar literal_eval hashable arquivo =
     (case carregar_lista_invertida literal_eval hashable arquivo indexador_init of
        Inl e \<Rightarrow> None
      | Inr st \<Rightarrow>
          (case calcular_pesos st of
             Inl e \<Rightarrow> None
           | Inr st' \<Rightarrow> salvar_modelo st'))"

text \<open>The Python values of the examples: an \<open>int\<close>, a \<open>str\<close> and a \<open>list\<close>. The first
  two are hashable, a list is not.\<close>

datatype valor = Inteiro int | Texto string | Lista "valor list"

fun valor_hashable :: "valor \<Rightarrow> bool" where
  "valor_hashable (Inteiro n) = True"
| "valor_hashable (Texto s) = True"
| "valor_hashable (Lista vs) = False"

section \<open>Buscador\<close>

text \<open>The field \<open>normas_documentos\<close> of the Buscador is \<open>normas_docs\<close> here, the name
  being taken by the record of the Indexador. Both tables are the \<open>defaultdict\<close>s that
  the Indexador pickled.\<close>

record 'd buscador =
  modelo_tfidf :: "(string, ('d, real) dict) dict"
  normas_docs :: "('d, real) dict"
  consultas :: "(int, string) dict"
  resultados_finais :: "(int, (nat \<times> 'd \<times> real) list) dict"

subsection \<open>\<open>_realizar_buscas\<close>\<close>

text \<open>The loop over \<open>self.modelo_tfidf[termo].items()\<close>: the scalar product is
  accumulated in \<open>scores_docs\<close>, a \<open>defaultdict(float)\<close>.\<close>

fun acumular_pesos :: "('d, real) dict \<Rightarrow> ('d, real) dict \<Rightarrow> ('d, real) dict" where
  "acumular_pesos scores_docs [] = scores_docs"
| "acumular_pesos scores_docs ((doc_id, peso) # resto) =
     acumular_pesos (dd_add scores_docs 0 doc_id (peso * 1)) resto"

text \<open>One round of the loop over \<open>termos_consulta\<close>. The weight table is read with
  \<open>self.modelo_tfidf[termo]\<close>, so it is passed along.\<close>

fun pontuar_termo ::
  "('d, real) dict \<times> (string, ('d, real) dict) dict \<Rightarrow> string
    \<Rightarrow> ('d, real) dict \<times> (string, ('d, real) dict) dict"
where
  "pontuar_termo (scores_docs, m) termo =
     (if dict_in termo m
      then
        let (pesos, m') = dd_getitem m [] termo
        in (acumular_pesos scores_docs pesos, m')
      else (scores_docs, m))"

text \<open>\<open>scores_docs[doc_id] /= x\<close>\<close>

definition dd_div :: "('k, real) dict \<Rightarrow> 'k \<Rightarrow> real \<Rightarrow> ('k, real) dict" where
  "dd_div d k x = (let (v, d') = dd_getitem d 0 k in dict_set d' k (v / x))"

text \<open>The loop over the keys of \<open>scores_docs\<close> that divides by the norms.\<close>

definition normalizar ::
  "('d, real) dict \<Rightarrow> real \<Rightarrow> ('d, real) dict \<Rightarrow> ('d, real) dict"
where
  "normalizar normas norma_consulta scores_docs =
     foldl (\<lambda>scores_docs doc_id.
              let norma_doc = dict_get normas doc_id 1
              in if norma_doc > 0
                 then dd_div scores_docs doc_id (norma_doc * norma_consulta)
                 else scores_docs)
       scores_docs (map fst scores_docs)"

text \<open>The triples (position, document, score), positions counted from 1.\<close>

definition formatar :: "('d \<times> real) list \<Rightarrow> (nat \<times> 'd \<times> real) list" where
  "formatar docs_ranqueados =
     map (\<lambda>(i, (doc_id, score)). (i + 1, doc_id, score)) (enumerate 0 docs_ranqueados)"

text \<open>The body of the loop over \<open>self.consultas.items()\<close>.\<close>

fun buscar_consulta :: "'d buscador \<Rightarrow> int \<times> string \<Rightarrow> 'd buscador" where
  "buscar_consulta st (query_num, query_text) =
     (let termos_consulta = split query_text;
          norma_consulta = sqrt (real (length termos_consulta))
      in if norma_consulta = 0 then st
         else
           let (scores_docs, m) = foldl pontuar_termo ([], modelo_tfidf st) termos_consulta;
               scores_docs = normalizar (normas_docs st) norma_consulta scores_docs;
               docs_ranqueados = sorted_reverse snd scores_docs;
               resultado_formatado = formatar docs_ranqueados
           in st\<lparr>modelo_tfidf := m,
                 resultados_finais :=
                   dict_set (resultados_finais st) query_num resultado_formatado\<rparr>)"

definition realizar_buscas :: "'d buscador \<Rightarrow> 'd buscador" where
  "realizar_buscas st = foldl buscar_consulta st (consultas st)"

text \<open>The state in which \<open>_realizar_buscas\<close> starts: the model and the queries are
  loaded, no result has been stored.\<close>

definition buscador_carregado ::
  "(string, ('d, real) dict) dict \<Rightarrow> ('d, real) dict \<Rightarrow> (int, string) dict \<Rightarrow> 'd buscador"
where
  "buscador_carregado m normas cs =
     \<lparr>modelo_tfidf = m, normas_docs = normas, consultas = cs, resultados_finais = []\<rparr>"

text \<open>What one round of the loop stores for a query with the terms \<open>termos_consulta\<close>.\<close>

definition ranking ::
  "(string, ('d, real) dict) dict \<Rightarrow> ('d, real) dict \<Rightarrow> string list \<Rightarrow> (nat \<times> 'd \<times> real) list"
where
  "ranking m normas termos_consulta =
     formatar (sorted_reverse snd
       (normalizar normas (sqrt (real (length termos_consulta)))
          (fst (foldl pontuar_termo ([], m) termos_consulta))))"

section \<open>Facts about the containers\<close>

lemma map_of_dict_set: "map_of (dict_set d k v) = (map_of d)(k \<mapsto> v)"
  by (induction d) (auto simp: fun_eq_iff)

lemma keys_dict_set:
  "map fst (dict_set d k v) = (if k \<in> fst ` set d then map fst d else map fst d @ [k])"
  by (induction d) force+

lemma distinct_dict_set: "distinct (map fst d) \<Longrightarrow> distinct (map fst (dict_set d k v))"
  by (simp add: keys_dict_set)

lemma dict_set_twice: "dict_set (dict_set d k v) k w = dict_set d k w"
  by (induction d) auto

lemma dict_set_meio:
  "k \<notin> fst ` set antes \<Longrightarrow> dict_set (antes @ (k, v) # depois) k w = antes @ (k, w) # depois"
  by (induction antes) auto

lemma dict_get_meio:
  "k \<notin> fst ` set antes \<Longrightarrow> dict_get (antes @ (k, v) # depois) k z = v"
  by (induction antes) (auto simp: dict_get_def)

lemma dd_getitem_presente: "map_of d k = Some v \<Longrightarrow> dd_getitem d padrao k = (v, d)"
  by (simp add: dd_getitem_def)

lemma dd_add_eq: "dd_add d padrao k x = dict_set d k (dict_get d k padrao + x)"
  by (simp add: dd_add_def dd_getitem_def dict_get_def dict_set_twice split: option.splits)

lemma dd_div_eq: "dd_div d k x = dict_set d k (dict_get d k 0 / x)"
  by (simp add: dd_div_def dd_getitem_def dict_get_def dict_set_twice split: option.splits)

lemma foldl_chaves:
  fixes c :: "'k \<Rightarrow> bool" and f :: "'k \<Rightarrow> 'v \<Rightarrow> 'v" and z :: 'v
  defines "passo \<equiv> \<lambda>d k. if c k then dict_set d k (f k (dict_get d k z)) else d"
  assumes "distinct (map fst (antes @ xs))"
  shows "foldl passo (antes @ xs) (map fst xs)
     = antes @ map (\<lambda>(k, v). (k, if c k then f k v else v)) xs"
  using assms(2)
proof (induction xs arbitrary: antes)
  case Nil
  then show ?case by simp
next
  case (Cons p xs)
  obtain k v where p: "p = (k, v)" by (cases p)
  from Cons.prems have fora: "k \<notin> fst ` set antes"
    by (auto simp: p)
  let ?v = "if c k then f k v else v"
  have um: "passo (antes @ p # xs) k = (antes @ [(k, ?v)]) @ xs"
    using fora by (simp add: passo_def p dict_set_meio dict_get_meio)
  have "distinct (map fst ((antes @ [(k, ?v)]) @ xs))"
    using Cons.prems by (simp add: p)
  from Cons.IH [OF this]
  have "foldl passo (passo (antes @ p # xs) k) (map fst xs)
      = (antes @ [(k, ?v)]) @ map (\<lambda>(k, v). (k, if c k then f k v else v)) xs"
    by (simp only: um)
  then show ?case
    by (simp add: p)
qed

section \<open>The weight table is only read\<close>

lemma pontuar_termo_modelo: "snd (pontuar_termo (scores, m) termo) = m"
  by (auto simp: dict_in_def dd_getitem_def split: prod.splits option.splits)

lemma foldl_pontuar_termo_modelo: "snd (foldl pontuar_termo (scores, m) termos) = m"
proof (induction termos arbitrary: scores)
  case Nil
  then show ?case by simp
next
  case (Cons termo termos)
  obtain s' m' where e: "pontuar_termo (scores, m) termo = (s', m')"
    by (cases "pontuar_termo (scores, m) termo")
  with pontuar_termo_modelo [of scores m termo] have "m' = m" by simp
  with e Cons.IH [of s'] show ?case by simp
qed

lemma buscar_consulta_eq:
  "buscar_consulta st (query_num, query_text) =
     (if split query_text = [] then st
      else st\<lparr>resultados_finais :=
                dict_set (resultados_finais st) query_num
                  (ranking (modelo_tfidf st) (normas_docs st) (split query_text))\<rparr>)"
proof -
  obtain s m where e: "foldl pontuar_termo ([], modelo_tfidf st) (split query_text) = (s, m)"
    by (cases "foldl pontuar_termo ([], modelo_tfidf st) (split query_text)")
  with foldl_pontuar_termo_modelo [of "[]" "modelo_tfidf st" "split query_text"]
  have "m = modelo_tfidf st" by simp
  with e show ?thesis
    by (simp add: ranking_def Let_def)
qed

declare buscar_consulta.simps [simp del]

lemma foldl_buscar_modelo:
  "modelo_tfidf (foldl buscar_consulta st cs) = modelo_tfidf st \<and>
   normas_docs (foldl buscar_consulta st cs) = normas_docs st \<and>
   consultas (foldl buscar_consulta st cs) = consultas st"
proof (induction cs arbitrary: st)
  case Nil
  then show ?case by simp
next
  case (Cons c cs)
  obtain q t where c: "c = (q, t)" by (cases c)
  show ?case
    by (simp only: foldl_Cons Cons.IH c) (simp add: buscar_consulta_eq)
qed

lemma resultados_foldl:
  "distinct (map fst cs) \<Longrightarrow>
   map_of (resultados_finais (foldl buscar_consulta st cs)) q =
     (case map_of cs q of
        None \<Rightarrow> map_of (resultados_finais st) q
      | Some texto \<Rightarrow>
          if split texto = [] then map_of (resultados_finais st) q
          else Some (ranking (modelo_tfidf st) (normas_docs st) (split texto)))"
proof (induction cs arbitrary: st)
  case Nil
  then show ?case by simp
next
  case (Cons c cs)
  obtain q' t where c: "c = (q', t)" by (cases c)
  let ?st = "buscar_consulta st (q', t)"
  have m: "modelo_tfidf ?st = modelo_tfidf st" "normas_docs ?st = normas_docs st"
    by (simp_all add: buscar_consulta_eq)
  from Cons.prems have d: "distinct (map fst cs)" and fora: "q' \<notin> fst ` set cs"
    by (simp_all add: c)
  from fora have nada: "map_of cs q' = None"
    by (simp add: map_of_eq_None_iff)
  have r: "map_of (resultados_finais ?st) q =
      (if q = q' \<and> split t \<noteq> [] then Some (ranking (modelo_tfidf st) (normas_docs st) (split t))
       else map_of (resultados_finais st) q)"
    by (simp add: buscar_consulta_eq map_of_dict_set)
  show ?case
    using Cons.IH [OF d, of ?st] nada
    by (simp only: foldl_Cons c m r) (auto split: option.splits)
qed

lemmas busca_defs = realizar_buscas_def buscar_consulta.simps buscador_carregado_def split_def isspace_def
    dict_in_def dd_getitem_def dd_add_def dd_div_def normalizar_def dict_get_def sorted_reverse_def formatar_def enumerate_eq_zip

lemmas indexa_defs = calcular_pesos_def pesos_palavra_def dd_add_def
  dd_getitem_def modelo_set_def tirar_raizes_def dict_get_def

section \<open>The accumulated scores\<close>

lemma dict_get_dict_set:
  "dict_get (dict_set s k v) k' z = (if k' = k then v else dict_get s k' z)"
  by (simp add: dict_get_def map_of_dict_set)

lemma chaves_dd_add: "fst ` set (dd_add s z d x) = insert d (fst ` set s)"
  using keys_dict_set [of s d "dict_get s d z + x"]
  by (simp add: dd_add_eq flip: set_map split: if_splits) auto

lemma chaves_acumular:
  "fst ` set (acumular_pesos s pesos) = fst ` set s \<union> fst ` set pesos"
  by (induction s pesos rule: acumular_pesos.induct) (simp_all add: chaves_dd_add)

lemma distinct_acumular:
  "distinct (map fst s) \<Longrightarrow> distinct (map fst (acumular_pesos s pesos))"
  by (induction s pesos rule: acumular_pesos.induct) (simp_all add: dd_add_eq distinct_dict_set)

lemma valor_acumular:
  "dict_get (acumular_pesos s pesos) d 0
     = dict_get s d 0 + (\<Sum>(d', w)\<leftarrow>pesos. if d' = d then w else 0)"
  by (induction s pesos rule: acumular_pesos.induct) (simp_all add: dd_add_eq dict_get_dict_set)

lemma soma_dict_get:
  "distinct (map fst pesos) \<Longrightarrow>
   (\<Sum>(d', w)\<leftarrow>pesos. if d' = d then w else 0) = dict_get pesos d (0::real)"
proof (induction pesos)
  case Nil
  then show ?case by (simp add: dict_get_def)
next
  case (Cons p pesos)
  obtain d' w where p: "p = (d', w)" by (cases p)
  show ?case
  proof (cases "d' = d")
    case True
    with Cons.prems have "d \<notin> fst ` set pesos" by (simp add: p)
    then have "map_of pesos d = None" by (simp add: map_of_eq_None_iff)
    with Cons True show ?thesis
      by (simp add: p dict_get_def)
  next
    case False
    with Cons show ?thesis by (simp add: p dict_get_def)
  qed
qed

lemma pontuar_termo_eq:
  "pontuar_termo (s, m) termo =
     (acumular_pesos s (dict_get m termo []), m)"
  by (auto simp: dict_in_def dd_getitem_def dict_get_def split: option.splits)

lemma dict_get_membro: "d \<in> fst ` set (dict_get m termo []) \<longleftrightarrow>
   (\<exists>pesos. map_of m termo = Some pesos \<and> d \<in> fst ` set pesos)"
  by (cases "map_of m termo") (force simp: dict_get_def)+

lemma chaves_scores:
  "fst ` set (fst (foldl pontuar_termo (s, m) termos)) =
     fst ` set s \<union> {d. \<exists>termo\<in>set termos. d \<in> fst ` set (dict_get m termo [])}"
proof (induction termos arbitrary: s)
  case Nil
  then show ?case by simp
next
  case (Cons termo termos)
  show ?case
    by (simp only: foldl_Cons pontuar_termo_eq Cons.IH chaves_acumular) auto
qed

lemma distinct_scores:
  "distinct (map fst s) \<Longrightarrow> distinct (map fst (fst (foldl pontuar_termo (s, m) termos)))"
proof (induction termos arbitrary: s)
  case Nil
  then show ?case by simp
next
  case (Cons termo termos)
  show ?case
    by (simp only: foldl_Cons pontuar_termo_eq) (rule Cons.IH, rule distinct_acumular, rule Cons.prems)
qed

lemma valor_scores:
  assumes "\<forall>termo pesos. map_of m termo = Some pesos \<longrightarrow> distinct (map fst pesos)"
  shows "dict_get (fst (foldl pontuar_termo (s, m) termos)) d 0
     = dict_get s d 0 + (\<Sum>termo\<leftarrow>termos. dict_get (dict_get m termo []) d 0)"
proof (induction termos arbitrary: s)
  case Nil
  then show ?case by simp
next
  case (Cons termo termos)
  have "distinct (map fst (dict_get m termo []))"
    using assms by (simp add: dict_get_def split: option.splits)
  then show ?case
    by (simp only: foldl_Cons pontuar_termo_eq Cons.IH valor_acumular soma_dict_get) simp
qed

lemma map_of_dict_get:
  "k \<in> fst ` set s \<Longrightarrow> map_of s k = Some (dict_get s k z)"
  by (cases "map_of s k") (auto simp: dict_get_def map_of_eq_None_iff)

section \<open>Normalisation, sorting and numbering\<close>

lemma normalizar_eq:
  assumes "distinct (map fst s)"
  shows "normalizar normas nq s =
     map (\<lambda>(d, v). (d, if dict_get normas d 1 > 0 then v / (dict_get normas d 1 * nq) else v)) s"
proof -
  have "normalizar normas nq s =
      foldl (\<lambda>sc d. if dict_get normas d 1 > 0
                     then dict_set sc d (dict_get sc d 0 / (dict_get normas d 1 * nq)) else sc)
        ([] @ s) (map fst s)"
    by (simp add: normalizar_def dd_div_eq Let_def cong: if_cong)
  also have "\<dots> = [] @ map (\<lambda>(d, v). (d, if dict_get normas d 1 > 0
                                 then v / (dict_get normas d 1 * nq) else v)) s"
    using assms by (intro foldl_chaves) simp
  finally show ?thesis by simp
qed

lemma chaves_normalizar:
  "distinct (map fst s) \<Longrightarrow> map fst (normalizar normas nq s) = map fst s"
  by (simp add: normalizar_eq case_prod_unfold)

lemma mset_sorted_reverse: "mset (sorted_reverse chave xs) = mset xs"
  by (simp add: sorted_reverse_def)

lemma sorted_reverse_decrescente:
  "sorted_wrt (\<lambda>a b. chave a \<ge> chave b) (sorted_reverse chave xs)"
proof -
  have "sorted (map chave (sort_key chave (rev xs)))"
    by (rule sorted_sort_key)
  then have "sorted_wrt (\<lambda>a b. chave a \<le> chave b) (sort_key chave (rev xs))"
    by (simp add: sorted_map)
  then show ?thesis
    by (simp add: sorted_reverse_def sorted_wrt_rev)
qed

lemma sorted_reverse_estavel:
  "filter (\<lambda>x. chave x = v) (sorted_reverse chave xs) = filter (\<lambda>x. chave x = v) xs"
  by (simp add: sorted_reverse_def sort_key_stable flip: rev_filter)

lemma length_posicoes: "length [1..<Suc n] = n"
  by (simp only: length_upt One_nat_def diff_Suc_Suc diff_zero)

lemma formatar_zip: "formatar xs = zip [1..<Suc (length xs)] xs"
proof -
  have "formatar xs = zip (map Suc [0..<length xs]) xs"
    by (simp add: formatar_def enumerate_eq_zip zip_map1 case_prod_unfold)
  then show ?thesis
    by (simp only: map_Suc_upt One_nat_def)
qed

lemma length_formatar: "length (formatar xs) = length xs"
  by (simp only: formatar_zip length_zip length_posicoes min.idem)

lemma fst_formatar: "map fst (formatar xs) = [1..<Suc (length xs)]"
  by (simp only: formatar_zip map_fst_zip length_posicoes)

lemma snd_formatar: "map snd (formatar xs) = xs"
  by (simp only: formatar_zip map_snd_zip length_posicoes)

section \<open>The ranking of one query\<close>

lemma resultado_consulta:
  assumes "distinct (map fst (consultas st))"
    and "(query_num, query_text) \<in> set (consultas st)"
    and "split query_text \<noteq> []"
  shows "map_of (resultados_finais (realizar_buscas st)) query_num
           = Some (ranking (modelo_tfidf st) (normas_docs st) (split query_text))"
proof -
  from assms(1,2) have "map_of (consultas st) query_num = Some query_text"
    by simp
  with assms(3) resultados_foldl [OF assms(1), of st query_num]
  show ?thesis
    by (simp add: realizar_buscas_def)
qed

lemma length_sorted_reverse: "length (sorted_reverse chave xs) = length xs"
  by (simp add: sorted_reverse_def)

lemma set_sorted_reverse: "set (sorted_reverse chave xs) = set xs"
  by (simp add: sorted_reverse_def)

lemma snd_ranking:
  "map snd (ranking m normas termos) =
     sorted_reverse snd (normalizar normas (sqrt (real (length termos)))
        (fst (foldl pontuar_termo ([], m) termos)))"
  by (simp only: ranking_def snd_formatar)

lemma ranking_decrescente:
  "sorted_wrt (\<ge>) (map (snd \<circ> snd) (ranking m normas termos))"
proof -
  have "sorted_wrt (\<lambda>a b. snd a \<ge> snd b) (map snd (ranking m normas termos))"
    by (simp only: snd_ranking sorted_reverse_decrescente)
  then show ?thesis
    by (simp add: sorted_wrt_map)
qed

lemma ranking_posicoes:
  "map fst (ranking m normas termos) = [1..<Suc (length (ranking m normas termos))]"
  by (simp only: ranking_def fst_formatar length_formatar)

lemma length_ranking:
  "length (ranking m normas termos) =
     card {d. \<exists>termo\<in>set termos. \<exists>pesos. map_of m termo = Some pesos \<and> d \<in> fst ` set pesos}"
proof -
  let ?s = "fst (foldl pontuar_termo ([], m) termos)"
  have d: "distinct (map fst ?s)"
    by (rule distinct_scores) simp
  have "length (ranking m normas termos) = length (map snd (ranking m normas termos))"
    by simp
  also have "\<dots> = length (normalizar normas (sqrt (real (length termos))) ?s)"
    by (simp only: snd_ranking length_sorted_reverse)
  also have "\<dots> = length (map fst ?s)"
    using d by (simp add: normalizar_eq)
  also have "\<dots> = card (set (map fst ?s))"
    using d by (simp only: distinct_card)
  also have "set (map fst ?s) =
      {d. \<exists>termo\<in>set termos. \<exists>pesos. map_of m termo = Some pesos \<and> d \<in> fst ` set pesos}"
    by (simp only: set_map chaves_scores dict_get_membro) simp
  finally show ?thesis .
qed

lemma ranking_estavel:
  "filter (\<lambda>p. snd p = v) (map snd (ranking m normas termos)) =
   filter (\<lambda>p. snd p = v) (normalizar normas (sqrt (real (length termos)))
        (fst (foldl pontuar_termo ([], m) termos)))"
  by (simp only: snd_ranking sorted_reverse_estavel)

lemma ranking_documentos_distintos:
  "distinct (map (fst \<circ> snd) (ranking m normas termos))"
proof -
  let ?s = "fst (foldl pontuar_termo ([], m) termos)"
  let ?n = "normalizar normas (sqrt (real (length termos))) ?s"
  have d: "distinct (map fst ?s)"
    by (rule distinct_scores) simp
  then have "distinct (map fst ?n)"
    by (simp only: chaves_normalizar)
  moreover have "mset (map fst (sorted_reverse snd ?n)) = mset (map fst ?n)"
    by (simp only: mset_map mset_sorted_reverse)
  ultimately have "distinct (map fst (sorted_reverse snd ?n))"
    by (simp only: mset_eq_imp_distinct_iff [of "map fst (sorted_reverse snd ?n)" "map fst ?n"])
  then show ?thesis
    by (simp only: snd_ranking flip: map_map)
qed

lemma ranking_membro:
  assumes val: "\<forall>termo pesos. map_of m termo = Some pesos \<longrightarrow> distinct (map fst pesos)"
    and t: "termo \<in> set termos" and p: "map_of m termo = Some pesos" and d: "d \<in> fst ` set pesos"
  shows "\<exists>posicao. (posicao, d,
            if dict_get normas d 1 > 0
            then (\<Sum>termo\<leftarrow>termos. dict_get (dict_get m termo []) d 0)
                   / (dict_get normas d 1 * sqrt (real (length termos)))
            else (\<Sum>termo\<leftarrow>termos. dict_get (dict_get m termo []) d 0))
          \<in> set (ranking m normas termos)"
proof -
  let ?s = "fst (foldl pontuar_termo ([], m) termos)"
  let ?raw = "\<Sum>termo\<leftarrow>termos. dict_get (dict_get m termo []) d 0"
  let ?g = "\<lambda>(d, v). (d, if dict_get normas d 1 > 0
                 then v / (dict_get normas d 1 * sqrt (real (length termos))) else v)"
  have dist: "distinct (map fst ?s)"
    by (rule distinct_scores) simp
  from t p d have "d \<in> fst ` set ?s"
    by (simp only: chaves_scores dict_get_membro) blast
  then have "map_of ?s d = Some (dict_get ?s d 0)"
    by (rule map_of_dict_get)
  also have "dict_get ?s d 0 = ?raw"
    using valor_scores [OF val, of "[]" termos d] by (simp add: dict_get_def)
  finally have "(d, ?raw) \<in> set ?s"
    by (rule map_of_SomeD)
  then have "?g (d, ?raw) \<in> set (map ?g ?s)"
    by (simp only: set_map) (rule imageI)
  then have "?g (d, ?raw) \<in> set (map snd (ranking m normas termos))"
    using dist
    by (simp only: snd_ranking normalizar_eq set_sorted_reverse)
  then show ?thesis
    by (auto simp: image_iff)
qed

section \<open>Counting the occurrences\<close>

lemma chaves_contar:
  "fst ` set (contar_frequencia f lista) = fst ` set f \<union> set lista"
  by (induction f lista rule: contar_frequencia.induct) (simp_all add: chaves_dd_add)

lemma distinct_contar:
  "distinct (map fst f) \<Longrightarrow> distinct (map fst (contar_frequencia f lista))"
  by (induction f lista rule: contar_frequencia.induct) (simp_all add: dd_add_eq distinct_dict_set)

lemma valor_contar:
  "dict_get (contar_frequencia f lista) d 0 = dict_get f d 0 + count_list lista d"
  by (induction f lista rule: contar_frequencia.induct) (simp_all add: dd_add_eq dict_get_dict_set)

lemma map_of_contar:
  "map_of (contar_frequencia [] lista) d =
     (if d \<in> set lista then Some (count_list lista d) else None)"
proof (cases "d \<in> set lista")
  case True
  then have "d \<in> fst ` set (contar_frequencia [] lista)"
    by (simp add: chaves_contar)
  then have "map_of (contar_frequencia [] lista) d = Some (dict_get (contar_frequencia [] lista) d 0)"
    by (rule map_of_dict_get)
  moreover have "dict_get ([] :: ('a, nat) dict) d 0 = 0"
    by (simp add: dict_get_def)
  ultimately show ?thesis
    using True by (simp add: valor_contar)
next
  case False
  then have "d \<notin> fst ` set (contar_frequencia [] lista)"
    by (simp add: chaves_contar)
  with False show ?thesis
    by (simp add: map_of_eq_None_iff)
qed

section \<open>Storing the weights of one term\<close>

lemma modelo_set_eq:
  "modelo_set m palavra d x = dict_set m palavra (dict_set (dict_get m palavra []) d x)"
  by (simp add: modelo_set_def dd_getitem_def dict_get_def dict_set_twice split: option.splits)

lemma dict_get_modelo_set:
  "dict_get (modelo_set m palavra d x) t [] =
     (if t = palavra then dict_set (dict_get m palavra []) d x else dict_get m t [])"
  by (simp add: modelo_set_eq dict_get_dict_set)

lemma chaves_modelo_set: "fst ` set (modelo_set m palavra d x) = insert palavra (fst ` set m)"
  using keys_dict_set [of m palavra "dict_set (dict_get m palavra []) d x"]
  by (simp add: modelo_set_eq flip: set_map split: if_splits) auto

lemma dict_get_vazio: "dict_get [] k z = z"
  by (simp add: dict_get_def)

lemma chaves_gravar:
  "fst ` set (gravar_pesos idf palavra m f) =
     (if f = [] then fst ` set m else insert palavra (fst ` set m))"
proof (induction f arbitrary: m)
  case Nil
  then show ?case by simp
next
  case (Cons p f)
  obtain d freq where p: "p = (d, freq)" by (cases p)
  let ?m = "modelo_set m palavra d ((1 + log 10 (real freq)) * idf)"
  have "fst ` set (gravar_pesos idf palavra ?m f) = insert palavra (fst ` set m)"
    by (simp only: Cons.IH chaves_modelo_set) simp
  then show ?case
    by (simp add: p Let_def)
qed

lemma distinct_gravar:
  "distinct (map fst m) \<Longrightarrow> distinct (map fst (gravar_pesos idf palavra m f))"
  by (induction f arbitrary: m) (auto simp: modelo_set_eq distinct_dict_set Let_def)

lemma dict_get_gravar_outro:
  "t \<noteq> palavra \<Longrightarrow> dict_get (gravar_pesos idf palavra m f) t [] = dict_get m t []"
  by (induction f arbitrary: m) (auto simp: dict_get_modelo_set Let_def)

lemma interno_distinct_gravar:
  "distinct (map fst (dict_get m t [])) \<Longrightarrow>
   distinct (map fst (dict_get (gravar_pesos idf palavra m f) t []))"
proof (induction f arbitrary: m)
  case Nil
  then show ?case by simp
next
  case (Cons p f)
  obtain d freq where p: "p = (d, freq)" by (cases p)
  let ?m = "modelo_set m palavra d ((1 + log 10 (real freq)) * idf)"
  from Cons.prems have "distinct (map fst (dict_get ?m t []))"
    by (auto simp: dict_get_modelo_set distinct_dict_set)
  from Cons.IH [OF this] show ?case
    by (simp add: p Let_def)
qed

lemma peso_gravar:
  "distinct (map fst f) \<Longrightarrow>
   map_of (dict_get (gravar_pesos idf palavra m f) palavra []) d =
     (case map_of f d of
        Some freq \<Rightarrow> Some ((1 + log 10 (real freq)) * idf)
      | None \<Rightarrow> map_of (dict_get m palavra []) d)"
proof (induction f arbitrary: m)
  case Nil
  then show ?case by simp
next
  case (Cons p f)
  obtain doc_id freq where p: "p = (doc_id, freq)" by (cases p)
  from Cons.prems have fora: "map_of f doc_id = None" and dist: "distinct (map fst f)"
    by (simp_all add: p map_of_eq_None_iff)
  let ?m = "modelo_set m palavra doc_id ((1 + log 10 (real freq)) * idf)"
  have "map_of (dict_get (gravar_pesos idf palavra ?m f) palavra []) d =
     (case map_of f d of
        Some freq \<Rightarrow> Some ((1 + log 10 (real freq)) * idf)
      | None \<Rightarrow> map_of (dict_get ?m palavra []) d)"
    by (rule Cons.IH [OF dist])
  with fora show ?case
    by (auto simp: p Let_def dict_get_modelo_set map_of_dict_set split: option.splits)
qed

section \<open>The first pass over the inverted list\<close>

lemma calcular_Cons_Inr:
  assumes "calcular_tfidf n m ((t, lista) # resto) = Inr m'"
  shows "lista \<noteq> []"
    and "calcular_tfidf n
           (gravar_pesos (log 10 (real n / real (card (set lista)))) t m
              (contar_frequencia [] lista)) resto = Inr m'"
  using assms
  by (auto simp: pesos_palavra_def Let_def split: if_splits sum.splits)

lemma calcular_retorna:
  "\<forall>(t, lista) \<in> set li. lista \<noteq> [] \<Longrightarrow> \<exists>m'. calcular_tfidf n m li = Inr m'"
proof (induction li arbitrary: m)
  case Nil
  then show ?case by simp
next
  case (Cons p li)
  obtain t lista where p: "p = (t, lista)" by (cases p)
  from Cons.prems have ne: "lista \<noteq> []" and resto: "\<forall>(t, lista) \<in> set li. lista \<noteq> []"
    by (simp_all add: p)
  from ne have "card (set lista) \<noteq> 0" by simp
  then show ?case
    using Cons.IH [OF resto]
    by (simp add: p pesos_palavra_def Let_def)
qed

lemma chaves_calcular:
  "calcular_tfidf n m li = Inr m' \<Longrightarrow> fst ` set m' = fst ` set m \<union> fst ` set li"
proof (induction li arbitrary: m)
  case Nil
  then show ?case by simp
next
  case (Cons p li)
  obtain t lista where p: "p = (t, lista)" by (cases p)
  note c = calcular_Cons_Inr [OF Cons.prems [unfolded p]]
  from c(1) have "contar_frequencia [] lista \<noteq> []"
    using chaves_contar [of "[]" lista] by (cases lista) auto
  with Cons.IH [OF c(2)] show ?case
    by (simp add: chaves_gravar p)
qed

lemma distinct_calcular:
  "calcular_tfidf n m li = Inr m' \<Longrightarrow> distinct (map fst m) \<Longrightarrow> distinct (map fst m')"
proof (induction li arbitrary: m)
  case Nil
  then show ?case by simp
next
  case (Cons p li)
  obtain t lista where p: "p = (t, lista)" by (cases p)
  note c = calcular_Cons_Inr [OF Cons.prems(1) [unfolded p]]
  show ?case
    by (rule Cons.IH [OF c(2)]) (rule distinct_gravar, rule Cons.prems(2))
qed

lemma interno_distinct_calcular:
  "calcular_tfidf n m li = Inr m' \<Longrightarrow> distinct (map fst (dict_get m t []))
     \<Longrightarrow> distinct (map fst (dict_get m' t []))"
proof (induction li arbitrary: m)
  case Nil
  then show ?case by simp
next
  case (Cons p li)
  obtain t' lista where p: "p = (t', lista)" by (cases p)
  note c = calcular_Cons_Inr [OF Cons.prems(1) [unfolded p]]
  show ?case
    by (rule Cons.IH [OF c(2)]) (rule interno_distinct_gravar, rule Cons.prems(2))
qed

lemma calcular_outro:
  "calcular_tfidf n m li = Inr m' \<Longrightarrow> t \<notin> fst ` set li
     \<Longrightarrow> dict_get m' t [] = dict_get m t []"
proof (induction li arbitrary: m)
  case Nil
  then show ?case by simp
next
  case (Cons p li)
  obtain t' lista where p: "p = (t', lista)" by (cases p)
  note c = calcular_Cons_Inr [OF Cons.prems(1) [unfolded p]]
  from Cons.prems(2) have dif: "t \<noteq> t'" and fora: "t \<notin> fst ` set li"
    by (auto simp: p)
  from Cons.IH [OF c(2) fora] dif show ?case
    by (simp add: dict_get_gravar_outro)
qed

lemma peso_calcular:
  assumes "calcular_tfidf n m li = Inr m'" and "distinct (map fst li)" and "(t, lista) \<in> set li"
  shows "map_of (dict_get m' t []) d =
     (if d \<in> set lista
      then Some ((1 + log 10 (real (count_list lista d))) * log 10 (real n / real (card (set lista))))
      else map_of (dict_get m t []) d)"
  using assms
proof (induction li arbitrary: m)
  case Nil
  then show ?case by simp
next
  case (Cons p li)
  obtain t' lista' where p: "p = (t', lista')" by (cases p)
  note c = calcular_Cons_Inr [OF Cons.prems(1) [unfolded p]]
  from Cons.prems(2) have fora: "t' \<notin> fst ` set li" and dist: "distinct (map fst li)"
    by (simp_all add: p)
  let ?m = "gravar_pesos (log 10 (real n / real (card (set lista')))) t' m
              (contar_frequencia [] lista')"
  show ?case
  proof (cases "(t, lista) = (t', lista')")
    case True
    have "dict_get m' t [] = dict_get ?m t []"
      using calcular_outro [OF c(2) fora] True by simp
    moreover have "distinct (map fst (contar_frequencia [] lista))"
      by (rule distinct_contar) simp
    ultimately show ?thesis
      using True by (simp add: peso_gravar map_of_contar)
  next
    case False
    with Cons.prems(3) have dentro: "(t, lista) \<in> set li"
      by (auto simp: p)
    with fora have "t \<noteq> t'"
      by (auto simp: image_iff)
    with Cons.IH [OF c(2) dist dentro] show ?thesis
      by (simp add: dict_get_gravar_outro)
  qed
qed

lemma peso_em_dict:
  "map_of (dict_get m t []) d = Some w \<longleftrightarrow>
     (\<exists>pesos. map_of m t = Some pesos \<and> map_of pesos d = Some w)"
  by (cases "map_of m t") (simp_all add: dict_get_def)

section \<open>The sign of a weight\<close>

lemma peso_sinal:
  assumes "1 \<le> c" and "1 \<le> df" and "df \<le> n"
  shows "0 \<le> (1 + log 10 (real c)) * log 10 (real n / real df)"
    and "(1 + log 10 (real c)) * log 10 (real n / real df) = 0 \<longleftrightarrow> df = n"
proof -
  from assms(1) have "0 \<le> log 10 (real c)"
    by simp
  then have tf: "0 < 1 + log 10 (real c)"
    by linarith
  from assms(2,3) have q: "1 \<le> real n / real df"
    by (simp add: le_divide_eq)
  then have idf: "0 \<le> log 10 (real n / real df)"
    by simp
  from tf idf show "0 \<le> (1 + log 10 (real c)) * log 10 (real n / real df)"
    by simp
  have "log 10 (real n / real df) = 0 \<longleftrightarrow> real n / real df = 1"
  proof
    assume z: "log 10 (real n / real df) = 0"
    have "\<not> 1 < real n / real df"
    proof
      assume "1 < real n / real df"
      then have "0 < log 10 (real n / real df)" by simp
      with z show False by simp
    qed
    with q show "real n / real df = 1" by linarith
  next
    assume "real n / real df = 1"
    then show "log 10 (real n / real df) = 0" by simp
  qed
  also have "\<dots> \<longleftrightarrow> df = n"
    using assms(2) by auto
  finally show "(1 + log 10 (real c)) * log 10 (real n / real df) = 0 \<longleftrightarrow> df = n"
    using tf by simp
qed

lemma documentos_finitos:
  "finite (\<Union>(t, lista) \<in> set li. set lista)"
  by auto

lemma calcular_pesos_retorna:
  assumes "\<forall>(t, lista) \<in> set (lista_invertida st). lista \<noteq> []"
  shows "\<exists>st'. calcular_pesos st = Inr st'"
proof -
  from calcular_retorna [OF assms]
  obtain m' where "calcular_tfidf (card (documentos st)) (modelo st) (lista_invertida st) = Inr m'"
    by blast
  then show ?thesis
    by (simp add: calcular_pesos_def Let_def)
qed

lemma calcular_pesos_modelo:
  assumes "calcular_pesos st = Inr st'" and "card (documentos st) \<noteq> 0"
  shows "calcular_tfidf (card (documentos st)) (modelo st) (lista_invertida st) = Inr (modelo st')"
    and "normas_documentos st' =
           tirar_raizes (somar_quadrados (modelo st') (normas_documentos st) (map fst (modelo st')))"
  using assms
  by (auto simp: calcular_pesos_def Let_def split: sum.splits)

section \<open>The second pass: the norms\<close>

lemma chaves_somar_pesos:
  "fst ` set (somar_pesos ns pesos) = fst ` set ns \<union> fst ` set pesos"
  by (induction ns pesos rule: somar_pesos.induct) (simp_all add: chaves_dd_add)

lemma distinct_somar_pesos:
  "distinct (map fst ns) \<Longrightarrow> distinct (map fst (somar_pesos ns pesos))"
  by (induction ns pesos rule: somar_pesos.induct) (simp_all add: dd_add_eq distinct_dict_set)

lemma valor_somar_pesos:
  "dict_get (somar_pesos ns pesos) d 0
     = dict_get ns d 0 + (\<Sum>(d', w)\<leftarrow>pesos. if d' = d then w ^ 2 else 0)"
  by (induction ns pesos rule: somar_pesos.induct) (simp_all add: dd_add_eq dict_get_dict_set)

lemma soma_quadrado:
  "distinct (map fst pesos) \<Longrightarrow>
   (\<Sum>(d', w)\<leftarrow>pesos. if d' = d then w ^ 2 else 0)
     = (case map_of pesos d of None \<Rightarrow> 0 | Some w \<Rightarrow> (w::real) ^ 2)"
proof (induction pesos)
  case Nil
  then show ?case by simp
next
  case (Cons p pesos)
  obtain d' w where p: "p = (d', w)" by (cases p)
  show ?case
  proof (cases "d' = d")
    case True
    with Cons.prems have "d \<notin> fst ` set pesos" by (simp add: p)
    then have "map_of pesos d = None" by (simp add: map_of_eq_None_iff)
    with Cons True show ?thesis
      by (simp add: p)
  next
    case False
    with Cons show ?thesis by (simp add: p)
  qed
qed

lemma chaves_somar_quadrados:
  "fst ` set (somar_quadrados m ns ks) =
     fst ` set ns \<union> (\<Union>k\<in>set ks. fst ` set (dict_get m k []))"
  by (induction m ns ks rule: somar_quadrados.induct) (auto simp: chaves_somar_pesos)

lemma distinct_somar_quadrados:
  "distinct (map fst ns) \<Longrightarrow> distinct (map fst (somar_quadrados m ns ks))"
  by (induction m ns ks rule: somar_quadrados.induct) (simp_all add: distinct_somar_pesos)

lemma valor_somar_quadrados:
  "dict_get (somar_quadrados m ns ks) d 0
     = dict_get ns d 0 +
       (\<Sum>k\<leftarrow>ks. \<Sum>(d', w)\<leftarrow>dict_get m k []. if d' = d then w ^ 2 else 0)"
  by (induction m ns ks rule: somar_quadrados.induct) (simp_all add: valor_somar_pesos)

lemma dict_get_entrada:
  "distinct (map fst m) \<Longrightarrow> (k, v) \<in> set m \<Longrightarrow> dict_get m k z = v"
  by (simp add: dict_get_def)

lemma soma_sobre_chaves:
  assumes "distinct (map fst m)"
  shows "(\<Sum>k\<leftarrow>map fst m. g (dict_get m k [])) = (\<Sum>(t, pesos)\<leftarrow>m. g pesos)"
proof -
  have "map (\<lambda>k. g (dict_get m k [])) (map fst m) = map (\<lambda>(t, pesos). g pesos) m"
    using dict_get_entrada [OF assms] by (auto simp: case_prod_unfold)
  then show ?thesis
    by (simp only:)
qed

lemma tirar_raizes_eq:
  assumes "distinct (map fst ns)"
  shows "tirar_raizes ns = map (\<lambda>(d, v). (d, sqrt v)) ns"
proof -
  have "tirar_raizes ns =
      foldl (\<lambda>ns d. if True then dict_set ns d (sqrt (dict_get ns d 0)) else ns)
        ([] @ ns) (map fst ns)"
    by (simp add: tirar_raizes_def)
  also have "\<dots> = [] @ map (\<lambda>(d, v). (d, if True then sqrt v else v)) ns"
    using assms by (intro foldl_chaves) simp
  finally show ?thesis by simp
qed

lemma norma_calculada:
  assumes ext: "distinct (map fst m)"
    and int: "\<forall>t. distinct (map fst (dict_get m t []))"
    and tp: "(t, pesos) \<in> set m" and d: "d \<in> fst ` set pesos"
  shows "map_of (tirar_raizes (somar_quadrados m [] (map fst m))) d =
     Some (sqrt (\<Sum>(t, pesos)\<leftarrow>m. case map_of pesos d of None \<Rightarrow> 0 | Some w \<Rightarrow> w ^ 2))"
proof -
  let ?s = "somar_quadrados m [] (map fst m)"
  have dist: "distinct (map fst ?s)"
    by (rule distinct_somar_quadrados) simp
  from tp have "t \<in> set (map fst m)"
    by force
  moreover from ext tp have "dict_get m t [] = pesos"
    by (rule dict_get_entrada)
  ultimately have "d \<in> fst ` set ?s"
    using d by (simp only: chaves_somar_quadrados) blast
  then have "map_of ?s d = Some (dict_get ?s d 0)"
    by (rule map_of_dict_get)
  also have "dict_get ?s d 0 =
      (\<Sum>k\<leftarrow>map fst m. \<Sum>(d', w)\<leftarrow>dict_get m k []. if d' = d then w ^ 2 else 0)"
    by (simp add: valor_somar_quadrados dict_get_vazio)
  also have "\<dots> = (\<Sum>k\<leftarrow>map fst m. case map_of (dict_get m k []) d of None \<Rightarrow> 0 | Some w \<Rightarrow> w ^ 2)"
    using int by (simp only: soma_quadrado)
  also have "\<dots> = (\<Sum>(t, pesos)\<leftarrow>m. case map_of pesos d of None \<Rightarrow> 0 | Some w \<Rightarrow> w ^ 2)"
    using ext by (rule soma_sobre_chaves)
  finally show ?thesis
    using dist by (simp add: tirar_raizes_eq map_of_map)
qed

section \<open>Loading the inverted list\<close>

lemma dict_set_nao_vazio: "dict_set d k v \<noteq> []"
  by (cases d) (auto split: if_splits)

lemma set_dict_set: "set (dict_set d k v) \<subseteq> insert (k, v) (set d)"
  by (induction d) (auto split: if_splits)

lemma carregar_linhas_dois:
  "carregar_linhas lit h st ([palavra, s] # resto) =
     (case lit s of
        Inl e \<Rightarrow> Inl e
      | Inr NaoIteravel \<Rightarrow> Inl TypeError
      | Inr (Iteravel ds) \<Rightarrow>
          if list_all h ds
          then carregar_linhas lit h
                 (st\<lparr>lista_invertida := dict_set (lista_invertida st) palavra ds,
                     documentos := documentos st \<union> set ds\<rparr>) resto
          else Inl TypeError)"
  by simp

lemma carregar_linhas_outro:
  assumes "\<forall>palavra s. linha \<noteq> [palavra, s]"
  shows "carregar_linhas lit h st (linha # resto) = Inl ValueError"
proof (cases linha)
  case Nil
  then show ?thesis by simp
next
  case (Cons a r)
  note l = this
  show ?thesis
  proof (cases r)
    case Nil
    with l show ?thesis by simp
  next
    case (Cons b r')
    with l assms have "r' \<noteq> []" by auto
    then obtain c r'' where "r' = c # r''" by (cases r') auto
    with l Cons show ?thesis by simp
  qed
qed

declare carregar_linhas.simps(2) [simp del]

text \<open>A record loads when it has two fields and the second evaluates to a value that
  can be iterated and whose elements are all hashable. One record that does not load
  makes the whole loading fail.\<close>

lemma carregar_linha_nao_carrega:
  assumes "\<not> (\<exists>palavra s ds. linha = [palavra, s] \<and> lit s = Inr (Iteravel ds) \<and> list_all h ds)"
  shows "\<exists>e. carregar_linhas lit h st (linha # resto) = Inl e"
proof (cases "\<exists>palavra s. linha = [palavra, s]")
  case False
  then show ?thesis
    by (simp add: carregar_linhas_outro)
next
  case True
  then obtain palavra s where l: "linha = [palavra, s]"
    by blast
  show ?thesis
  proof (cases "lit s")
    case (Inl e)
    then show ?thesis
      by (simp add: l carregar_linhas_dois)
  next
    case (Inr v)
    show ?thesis
    proof (cases v)
      case NaoIteravel
      with Inr show ?thesis
        by (simp add: l carregar_linhas_dois)
    next
      case (Iteravel ds)
      with Inr assms l have "\<not> list_all h ds"
        by blast
      with Inr Iteravel show ?thesis
        by (simp add: l carregar_linhas_dois)
    qed
  qed
qed

lemma carregar_linha_carrega:
  assumes "linha = [palavra, s]" and "lit s = Inr (Iteravel ds)" and "list_all h ds"
  shows "carregar_linhas lit h st (linha # resto) =
     carregar_linhas lit h
       (st\<lparr>lista_invertida := dict_set (lista_invertida st) palavra ds,
           documentos := documentos st \<union> set ds\<rparr>) resto"
  using assms by (simp add: carregar_linhas_dois)

lemma carregar_falha:
  assumes "linha \<in> set linhas"
    and "\<not> (\<exists>palavra s ds. linha = [palavra, s] \<and> lit s = Inr (Iteravel ds) \<and> list_all h ds)"
  shows "\<exists>e. carregar_linhas lit h st linhas = Inl e"
  using assms(1)
proof (induction linhas arbitrary: st)
  case Nil
  then show ?case by simp
next
  case (Cons l linhas)
  show ?case
  proof (cases "\<exists>palavra s ds. l = [palavra, s] \<and> lit s = Inr (Iteravel ds) \<and> list_all h ds")
    case False
    then show ?thesis
      by (rule carregar_linha_nao_carrega)
  next
    case True
    then obtain palavra s ds where
      l: "l = [palavra, s]" and s: "lit s = Inr (Iteravel ds)" and ds: "list_all h ds"
      by blast
    with assms(2) have "l \<noteq> linha"
      by blast
    with Cons.prems have "linha \<in> set linhas"
      by simp
    from Cons.IH [OF this] show ?thesis
      by (simp only: carregar_linha_carrega [where lit = lit and h = h, OF l s ds])
  qed
qed

lemma carregar_bem_formado:
  assumes "\<forall>linha \<in> set linhas. \<exists>palavra s ds.
             linha = [palavra, s] \<and> lit s = Inr (Iteravel ds) \<and> list_all h ds \<and> ds \<noteq> []"
    and "finite (documentos st)"
    and "\<forall>(t, l) \<in> set (lista_invertida st). l \<noteq> [] \<and> set l \<subseteq> documentos st"
  shows "\<exists>st'. carregar_linhas lit h st linhas = Inr st' \<and>
           finite (documentos st') \<and>
           (\<forall>(t, l) \<in> set (lista_invertida st'). l \<noteq> [] \<and> set l \<subseteq> documentos st') \<and>
           modelo st' = modelo st \<and> normas_documentos st' = normas_documentos st \<and>
           (linhas \<noteq> [] \<or> lista_invertida st \<noteq> [] \<longrightarrow> lista_invertida st' \<noteq> [])"
  using assms
proof (induction linhas arbitrary: st)
  case Nil
  then show ?case by simp
next
  case (Cons l linhas)
  from Cons.prems(1) obtain palavra s ds where
    l: "l = [palavra, s]" and s: "lit s = Inr (Iteravel ds)" and h: "list_all h ds"
    and ds: "ds \<noteq> []"
    by auto
  let ?st = "st\<lparr>lista_invertida := dict_set (lista_invertida st) palavra ds,
                documentos := documentos st \<union> set ds\<rparr>"
  from Cons.prems(1) have a: "\<forall>linha \<in> set linhas. \<exists>palavra s ds.
      linha = [palavra, s] \<and> lit s = Inr (Iteravel ds) \<and> list_all h ds \<and> ds \<noteq> []"
    by simp
  from Cons.prems(2) have b: "finite (documentos ?st)"
    by simp
  have c: "\<forall>(t, l) \<in> set (lista_invertida ?st). l \<noteq> [] \<and> set l \<subseteq> documentos ?st"
    using Cons.prems(3) ds set_dict_set [of "lista_invertida st" palavra ds]
    by auto
  from Cons.IH [OF a b c] show ?case
    by (simp add: carregar_linha_carrega [where lit = lit and h = h, OF l s h] dict_set_nao_vazio)
qed

lemma executar_falha:
  assumes "linha \<in> set linhas"
    and "\<not> (\<exists>palavra s ds. linha = [palavra, s] \<and> lit s = Inr (Iteravel ds) \<and> list_all h ds)"
  shows "executar lit h (Some (cabecalho # linhas)) = None"
proof -
  from carregar_falha [OF assms, of indexador_init]
  obtain e where "carregar_linhas lit h indexador_init linhas = Inl e"
    by blast
  then show ?thesis
    by (simp add: executar_def carregar_lista_invertida_def)
qed

lemma executar_aceita:
  assumes "\<forall>linha \<in> set linhas. \<exists>palavra s ds.
             linha = [palavra, s] \<and> lit s = Inr (Iteravel ds) \<and> list_all h ds \<and> ds \<noteq> []"
    and "linhas \<noteq> []"
  shows "\<exists>m normas. executar lit h (Some (cabecalho # linhas)) = Some (m, normas) \<and> m \<noteq> []"
proof -
  let ?i = "indexador_init :: 'a indexador"
  have f0: "finite (documentos ?i)"
    by (simp add: indexador_init_def)
  have i0: "\<forall>(t, l) \<in> set (lista_invertida ?i). l \<noteq> [] \<and> set l \<subseteq> documentos ?i"
    by (simp add: indexador_init_def)
  from carregar_bem_formado [OF assms(1) f0 i0]
  obtain st where st: "carregar_linhas lit h ?i linhas = Inr st"
    and fin: "finite (documentos st)"
    and inv: "\<forall>(t, l) \<in> set (lista_invertida st). l \<noteq> [] \<and> set l \<subseteq> documentos st"
    and li': "linhas \<noteq> [] \<or> lista_invertida ?i \<noteq> [] \<longrightarrow> lista_invertida st \<noteq> []"
    by blast
  from li' assms(2) have li: "lista_invertida st \<noteq> []"
    by blast
  then obtain t l r where tl: "lista_invertida st = (t, l) # r"
    by (cases "lista_invertida st") auto
  with inv have l: "l \<noteq> []" and sub: "set l \<subseteq> documentos st"
    by simp_all
  from l obtain d where "d \<in> set l"
    by (cases l) auto
  with sub have "d \<in> documentos st"
    by blast
  with fin have n: "card (documentos st) \<noteq> 0"
    by auto
  have "\<forall>(t, l) \<in> set (lista_invertida st). l \<noteq> []"
  proof (rule ballI)
    fix p assume "p \<in> set (lista_invertida st)"
    with inv show "case p of (t, l) \<Rightarrow> l \<noteq> []"
      by (cases p) blast
  qed
  from calcular_pesos_retorna [OF this]
  obtain st' where st': "calcular_pesos st = Inr st'"
    by blast
  have "fst ` set (modelo st') = fst ` set (modelo st) \<union> fst ` set (lista_invertida st)"
    by (rule chaves_calcular [OF calcular_pesos_modelo(1) [OF st' n]])
  then have "t \<in> fst ` set (modelo st')"
    by (simp add: tl)
  then have "modelo st' \<noteq> []"
    by auto
  with st st' show ?thesis
    by (simp add: executar_def carregar_lista_invertida_def salvar_modelo_def)
qed

text \<open>For a file with one record per term, loading leaves the state that the theorems
  on \<open>_calcular_pesos\<close> start from: a dict, and \<open>documentos\<close> the ids of its sequences.\<close>

lemma dict_set_novo: "k \<notin> fst ` set d \<Longrightarrow> dict_set d k v = d @ [(k, v)]"
  by (induction d) auto

lemma carregar_estabelece:
  assumes "carregar_linhas lit h st linhas = Inr st'"
    and "distinct (map hd linhas)"
    and "\<forall>linha \<in> set linhas. hd linha \<notin> fst ` set (lista_invertida st)"
    and "distinct (map fst (lista_invertida st))"
    and "documentos st = (\<Union>(t, lista) \<in> set (lista_invertida st). set lista)"
  shows "distinct (map fst (lista_invertida st')) \<and>
         documentos st' = (\<Union>(t, lista) \<in> set (lista_invertida st'). set lista)"
  using assms
proof (induction linhas arbitrary: st)
  case Nil
  then show ?case by simp
next
  case (Cons l linhas)
  show ?case
  proof (cases "\<exists>palavra s ds. l = [palavra, s] \<and> lit s = Inr (Iteravel ds) \<and> list_all h ds")
    case False
    from carregar_linha_nao_carrega [OF this, of st linhas] Cons.prems(1) show ?thesis
      by simp
  next
    case True
    then obtain palavra s ds where
      l: "l = [palavra, s]" and s: "lit s = Inr (Iteravel ds)" and ds: "list_all h ds"
      by blast
    let ?st = "st\<lparr>lista_invertida := dict_set (lista_invertida st) palavra ds,
                  documentos := documentos st \<union> set ds\<rparr>"
    from Cons.prems(3) have novo: "palavra \<notin> fst ` set (lista_invertida st)"
      by (simp add: l)
    then have li: "dict_set (lista_invertida st) palavra ds = lista_invertida st @ [(palavra, ds)]"
      by (rule dict_set_novo)
    from Cons.prems(1) have a: "carregar_linhas lit h ?st linhas = Inr st'"
      by (simp only: carregar_linha_carrega [where lit = lit and h = h, OF l s ds])
    from Cons.prems(2) have b: "distinct (map hd linhas)"
      by simp
    from Cons.prems(2,3) have c: "\<forall>linha \<in> set linhas. hd linha \<notin> fst ` set (lista_invertida ?st)"
      by (auto simp: li l)
    from Cons.prems(4) novo have d: "distinct (map fst (lista_invertida ?st))"
      by (simp add: li)
    from Cons.prems(5) have e: "documentos ?st = (\<Union>(t, lista) \<in> set (lista_invertida ?st). set lista)"
      by (auto simp: li)
    from Cons.IH [OF a b c d e] show ?thesis .
  qed
qed

section \<open>The claims\<close>

text \<open>
  C9: retrieval never changes the Model. After \<open>_realizar_buscas\<close> the weight table and
  the norm table are equal to what they were before, for every set of queries: the weight
  table is read only under keys that are present, and the norm table only with \<open>get\<close>.
\<close>

theorem realizar_buscas_nao_altera_modelo:
  "modelo_tfidf (realizar_buscas st) = modelo_tfidf st \<and>
   normas_docs (realizar_buscas st) = normas_docs st"
  by (simp add: realizar_buscas_def foldl_buscar_modelo)

text \<open>
  C7: a query whose text splits into no term is skipped. Its entry in
  \<open>resultados_finais\<close> is what it was before the run, so when the run starts with no
  result stored the query has no entry at all afterwards, not even an empty list.
  Nothing is raised: \<open>realizar_buscas\<close> has no error result.
\<close>

theorem consulta_vazia_pulada:
  assumes "distinct (map fst (consultas st))"
    and "(query_num, query_text) \<in> set (consultas st)"
    and "split query_text = []"
  shows "map_of (resultados_finais (realizar_buscas st)) query_num
           = map_of (resultados_finais st) query_num \<and>
         (resultados_finais st = [] \<longrightarrow>
            \<not> dict_in query_num (resultados_finais (realizar_buscas st)))"
proof -
  from assms(1,2) have "map_of (consultas st) query_num = Some query_text"
    by simp
  with assms(3) resultados_foldl [OF assms(1), of st query_num]
  have "map_of (resultados_finais (realizar_buscas st)) query_num
           = map_of (resultados_finais st) query_num"
    by (simp add: realizar_buscas_def)
  then show ?thesis
    by (auto simp: dict_in_def)
qed

theorem consulta_vazia_pulada_witness:
  "resultados_finais (realizar_buscas
      (buscador_carregado [(''DOG'', [(2::int, 1)])] [(2, 1)] [(1, ''  ''), (2, ''DOG'')]))
     = [(2, [(1, 2, 1)])] \<and>
   \<not> dict_in 1 (resultados_finais (realizar_buscas
      (buscador_carregado [(''DOG'', [(2::int, 1)])] [(2, 1)] [(1, ''  ''), (2, ''DOG'')])))"
proof -
  let ?st = "buscador_carregado [(''DOG'', [(2::int, 1)])] [(2, 1)] [(1, ''  ''), (2, ''DOG'')]"
  have a: "distinct (map fst (consultas ?st))"
    by (simp add: buscador_carregado_def)
  have b: "(1, ''  '') \<in> set (consultas ?st)"
    by (simp add: buscador_carregado_def)
  have c: "split ''  '' = []"
    by (simp add: split_def isspace_def)
  have e: "resultados_finais ?st = []"
    by (simp add: buscador_carregado_def)
  have "resultados_finais (realizar_buscas ?st) = [(2, [(1, 2, 1)])]"
    by (simp add: busca_defs)
  with consulta_vazia_pulada [OF a b c] e show ?thesis
    by blast
qed

text \<open>
  C4: for every query with at least one term, the ranked list stored for it is sorted
  by score, non-increasing; its positions are exactly 1 to k in this order; and k is the
  number of distinct documents that occur under some term of the query in the weight
  table. (With no term of the query in the weight table the list is empty and k is 0.)
\<close>

theorem ranking_ordenado_contiguo:
  assumes "distinct (map fst (consultas st))"
    and "(query_num, query_text) \<in> set (consultas st)"
    and "split query_text \<noteq> []"
  shows "\<exists>r. map_of (resultados_finais (realizar_buscas st)) query_num = Some r \<and>
           sorted_wrt (\<ge>) (map (snd \<circ> snd) r) \<and>
           map fst r = [1..<Suc (length r)] \<and>
           length r = card {d. \<exists>termo\<in>set (split query_text). \<exists>pesos.
                              map_of (modelo_tfidf st) termo = Some pesos \<and> d \<in> fst ` set pesos}"
  using resultado_consulta [OF assms] ranking_decrescente ranking_posicoes length_ranking
  by blast

theorem ranking_ordenado_contiguo_witness:
  "map_of (resultados_finais (realizar_buscas (buscador_carregado [(''A'', [(1::int, 1/2), (2, 1)]), (''B'', [(3, 1)])]
      [(1, 1), (2, 1), (3, 1)] [(7, ''A'')]))) 7 = Some [(1, 2, 1), (2, 1, 1/2)] \<and>
   (\<exists>r. map_of (resultados_finais (realizar_buscas (buscador_carregado [(''A'', [(1::int, 1/2), (2, 1)]), (''B'', [(3, 1)])]
      [(1, 1), (2, 1), (3, 1)] [(7, ''A'')]))) 7 = Some r \<and>
      sorted_wrt (\<ge>) (map (snd \<circ> snd) r) \<and>
      map fst r = [1..<Suc (length r)] \<and>
      length r = card {d. \<exists>termo\<in>set (split ''A''). \<exists>pesos.
          map_of (modelo_tfidf (buscador_carregado [(''A'', [(1::int, 1/2), (2, 1)]), (''B'', [(3, 1)])]
      [(1, 1), (2, 1), (3, 1)] [(7, ''A'')])) termo = Some pesos \<and> d \<in> fst ` set pesos})"
proof -
  let ?st = "(buscador_carregado [(''A'', [(1::int, 1/2), (2, 1)]), (''B'', [(3, 1)])]
      [(1, 1), (2, 1), (3, 1)] [(7, ''A'')])"
  have a: "distinct (map fst (consultas ?st))"
    by (simp add: buscador_carregado_def)
  have b: "(7, ''A'') \<in> set (consultas ?st)"
    by (simp add: buscador_carregado_def)
  have c: "split ''A'' \<noteq> []"
    by (simp add: split_def isspace_def)
  have r: "map_of (resultados_finais (realizar_buscas ?st)) 7 = Some [(1, 2, 1), (2, 1, 1/2)]"
    by (simp add: busca_defs)
  from ranking_ordenado_contiguo [OF a b c] r show ?thesis
    by blast
qed

text \<open>
  C5, as stated, fails: two documents with the same similarity are both listed, so the
  list is not strictly descending. Documents 1 and 2 both score 1 for the query \<open>A\<close>.
\<close>

theorem empate_counterexample:
  "map_of (resultados_finais (realizar_buscas
      (buscador_carregado [(''A'', [(1::int, 1), (2, 1)])] [(1, 1), (2, 1)] [(7, ''A'')]))) 7
     = Some [(1, 1, 1), (2, 2, 1)] \<and>
   \<not> sorted_wrt (>) (map (snd \<circ> snd) [(1::nat, 1::int, 1::real), (2, 2, 1)])"
  by (simp add: busca_defs)

text \<open>
  C5, amended: for every query with at least one term the ranked list is non-increasing
  by score and lists every scored document once; documents with equal scores are all
  kept, in the order in which \<open>scores_docs\<close> holds them (the sort is stable).
\<close>

theorem ranking_nao_crescente_estavel:
  assumes "distinct (map fst (consultas st))"
    and "(query_num, query_text) \<in> set (consultas st)"
    and "split query_text \<noteq> []"
  shows "\<exists>r. map_of (resultados_finais (realizar_buscas st)) query_num = Some r \<and>
           sorted_wrt (\<ge>) (map (snd \<circ> snd) r) \<and>
           distinct (map (fst \<circ> snd) r) \<and>
           (\<forall>v. filter (\<lambda>p. snd p = v) (map snd r) =
                filter (\<lambda>p. snd p = v)
                  (normalizar (normas_docs st) (sqrt (real (length (split query_text))))
                     (fst (foldl pontuar_termo ([], modelo_tfidf st) (split query_text)))))"
  using resultado_consulta [OF assms] ranking_decrescente ranking_documentos_distintos
    ranking_estavel
  by blast

theorem ranking_nao_crescente_estavel_witness:
  "map_of (resultados_finais (realizar_buscas
      (buscador_carregado [(''A'', [(1::int, 1), (2, 2), (3, 1)])] [(1, 1), (2, 1), (3, 1)]
         [(7, ''A'')]))) 7
     = Some [(1, 2, 2), (2, 1, 1), (3, 3, 1)] \<and>
   (\<exists>r. map_of (resultados_finais (realizar_buscas
      (buscador_carregado [(''A'', [(1::int, 1), (2, 2), (3, 1)])] [(1, 1), (2, 1), (3, 1)]
         [(7, ''A'')]))) 7 = Some r \<and>
      sorted_wrt (\<ge>) (map (snd \<circ> snd) r) \<and>
      distinct (map (fst \<circ> snd) r))"
proof -
  let ?st = "buscador_carregado [(''A'', [(1::int, 1), (2, 2), (3, 1)])]
      [(1, 1), (2, 1), (3, 1)] [(7, ''A'')]"
  have a: "distinct (map fst (consultas ?st))"
    by (simp add: buscador_carregado_def)
  have b: "(7, ''A'') \<in> set (consultas ?st)"
    by (simp add: buscador_carregado_def)
  have c: "split ''A'' \<noteq> []"
    by (simp add: split_def isspace_def)
  have r: "map_of (resultados_finais (realizar_buscas ?st)) 7
      = Some [(1, 2, 2), (2, 1, 1), (3, 3, 1)]"
    by (simp add: busca_defs)
  from ranking_nao_crescente_estavel [OF a b c] r show ?thesis
    by blast
qed

text \<open>
  C3, as stated, fails: the test \<open>norma_doc > 0\<close> only skips the division. Document 1
  has the stored norm 0 and is listed for the query \<open>A\<close>, with its raw score 1/2.
\<close>

theorem norma_zero_counterexample:
  "map_of (normas_docs (buscador_carregado [(''A'', [(1::int, 1/2)])] [(1, 0)] [(7, ''A'')])) 1
     = Some 0 \<and>
   map_of (resultados_finais (realizar_buscas
      (buscador_carregado [(''A'', [(1::int, 1/2)])] [(1, 0)] [(7, ''A'')]))) 7
     = Some [(1, 1, 1/2)]"
  by (simp add: busca_defs)

text \<open>
  C3, amended: a document whose stored norm is exactly 0 is not excluded. When it occurs
  under a term of the query in the weight table it is listed, and its score is the
  accumulated raw score, not divided by anything.
\<close>

theorem norma_zero_mantida:
  assumes "distinct (map fst (consultas st))"
    and "(query_num, query_text) \<in> set (consultas st)"
    and "split query_text \<noteq> []"
    and "\<forall>termo pesos. map_of (modelo_tfidf st) termo = Some pesos \<longrightarrow> distinct (map fst pesos)"
    and "termo \<in> set (split query_text)"
    and "map_of (modelo_tfidf st) termo = Some pesos"
    and "d \<in> fst ` set pesos"
    and "map_of (normas_docs st) d = Some 0"
  shows "\<exists>r posicao. map_of (resultados_finais (realizar_buscas st)) query_num = Some r \<and>
           (posicao, d, \<Sum>termo\<leftarrow>split query_text. dict_get (dict_get (modelo_tfidf st) termo []) d 0)
             \<in> set r"
proof -
  from assms(8) have "dict_get (normas_docs st) d 1 = 0"
    by (simp add: dict_get_def)
  with ranking_membro [OF assms(4-7), of "normas_docs st"] resultado_consulta [OF assms(1-3)]
  show ?thesis
    by auto
qed

theorem norma_zero_mantida_witness:
  "\<exists>r posicao. map_of (resultados_finais (realizar_buscas
       (buscador_carregado [(''A'', [(1::int, 1/2)])] [(1, 0)] [(7, ''A'')]))) 7 = Some r \<and>
     (posicao, 1, \<Sum>termo\<leftarrow>split ''A''. dict_get (dict_get (modelo_tfidf
       (buscador_carregado [(''A'', [(1::int, 1/2)])] [(1, 0)] [(7, ''A'')])) termo []) 1 0)
      \<in> set r"
proof -
  let ?st = "buscador_carregado [(''A'', [(1::int, 1/2)])] [(1, 0)] [(7, ''A'')]"
  have a: "distinct (map fst (consultas ?st))"
    by (simp add: buscador_carregado_def)
  have b: "(7, ''A'') \<in> set (consultas ?st)"
    by (simp add: buscador_carregado_def)
  have c: "split ''A'' \<noteq> []"
    by (simp add: split_def isspace_def)
  have v: "\<forall>termo pesos. map_of (modelo_tfidf ?st) termo = Some pesos \<longrightarrow> distinct (map fst pesos)"
    by (auto simp: buscador_carregado_def split: if_splits)
  have t: "''A'' \<in> set (split ''A'')"
    by (simp add: split_def isspace_def)
  have p: "map_of (modelo_tfidf ?st) ''A'' = Some [(1, 1/2)]"
    by (simp add: buscador_carregado_def)
  have d: "1 \<in> fst ` set [(1::int, 1/2::real)]"
    by simp
  have n: "map_of (normas_docs ?st) 1 = Some 0"
    by (simp add: buscador_carregado_def)
  from norma_zero_mantida [OF a b c v t p d n] show ?thesis .
qed

text \<open>
  C10: a document that occurs under a term of the query in the weight table and has no
  entry in the norm table is listed, nothing fails, and its score is the accumulated raw
  score divided by 1 times the norm of the query.
\<close>

theorem norma_ausente_vale_um:
  assumes "distinct (map fst (consultas st))"
    and "(query_num, query_text) \<in> set (consultas st)"
    and "split query_text \<noteq> []"
    and "\<forall>termo pesos. map_of (modelo_tfidf st) termo = Some pesos \<longrightarrow> distinct (map fst pesos)"
    and "termo \<in> set (split query_text)"
    and "map_of (modelo_tfidf st) termo = Some pesos"
    and "d \<in> fst ` set pesos"
    and "map_of (normas_docs st) d = None"
  shows "\<exists>r posicao. map_of (resultados_finais (realizar_buscas st)) query_num = Some r \<and>
           (posicao, d,
            (\<Sum>termo\<leftarrow>split query_text. dict_get (dict_get (modelo_tfidf st) termo []) d 0)
              / (1 * sqrt (real (length (split query_text)))))
             \<in> set r"
proof -
  from assms(8) have "dict_get (normas_docs st) d 1 = 1"
    by (simp add: dict_get_def)
  with ranking_membro [OF assms(4-7), of "normas_docs st"] resultado_consulta [OF assms(1-3)]
  show ?thesis
    by auto
qed

theorem norma_ausente_vale_um_witness:
  "\<exists>r posicao. map_of (resultados_finais (realizar_buscas
       (buscador_carregado [(''A'', [(1::int, 1/2)])] [] [(7, ''A'')]))) 7 = Some r \<and>
     (posicao, 1, (\<Sum>termo\<leftarrow>split ''A''. dict_get (dict_get (modelo_tfidf
       (buscador_carregado [(''A'', [(1::int, 1/2)])] [] [(7, ''A'')])) termo []) 1 0)
         / (1 * sqrt (real (length (split ''A'')))))
      \<in> set r"
proof -
  let ?st = "buscador_carregado [(''A'', [(1::int, 1/2)])] [] [(7, ''A'')]"
  have a: "distinct (map fst (consultas ?st))"
    by (simp add: buscador_carregado_def)
  have b: "(7, ''A'') \<in> set (consultas ?st)"
    by (simp add: buscador_carregado_def)
  have c: "split ''A'' \<noteq> []"
    by (simp add: split_def isspace_def)
  have v: "\<forall>termo pesos. map_of (modelo_tfidf ?st) termo = Some pesos \<longrightarrow> distinct (map fst pesos)"
    by (auto simp: buscador_carregado_def split: if_splits)
  have t: "''A'' \<in> set (split ''A'')"
    by (simp add: split_def isspace_def)
  have p: "map_of (modelo_tfidf ?st) ''A'' = Some [(1, 1/2)]"
    by (simp add: buscador_carregado_def)
  have d: "1 \<in> fst ` set [(1::int, 1/2::real)]"
    by simp
  have n: "map_of (normas_docs ?st) 1 = None"
    by (simp add: buscador_carregado_def)
  from norma_ausente_vale_um [OF a b c v t p d n] show ?thesis .
qed

text \<open>
  C1: for every term t of the inverted list and every document id d in its sequence,
  \<open>_calcular_pesos\<close> returns and the weight table holds for (t, d) the weight
  (1 + log10 freq) * log10 (N / docFreq), with N the number of distinct ids in the whole
  inverted list, docFreq the number of distinct ids in the sequence of t and freq, at
  least 1, the number of occurrences of d in it. The inverted list is a dict of non-empty
  sequences and \<open>documentos\<close> holds its ids, as \<open>_carregar_lista_invertida\<close> leaves them.
\<close>

theorem pesos_tfidf:
  assumes "distinct (map fst (lista_invertida st))"
    and "\<forall>(t, lista) \<in> set (lista_invertida st). lista \<noteq> []"
    and "documentos st = (\<Union>(t, lista) \<in> set (lista_invertida st). set lista)"
    and "(t, lista) \<in> set (lista_invertida st)"
    and "d \<in> set lista"
  shows "\<exists>st' pesos. calcular_pesos st = Inr st' \<and>
           map_of (modelo st') t = Some pesos \<and>
           map_of pesos d =
             Some ((1 + log 10 (real (count_list lista d))) *
                   log 10 (real (card (\<Union>(t, lista) \<in> set (lista_invertida st). set lista))
                           / real (card (set lista)))) \<and>
           1 \<le> count_list lista d"
proof -
  from calcular_pesos_retorna [OF assms(2)]
  obtain st' where st': "calcular_pesos st = Inr st'"
    by blast
  have "finite (documentos st)"
    by (simp only: assms(3) documentos_finitos)
  moreover from assms(4,5) have "d \<in> documentos st"
    by (auto simp: assms(3))
  ultimately have n: "card (documentos st) \<noteq> 0"
    by auto
  note m = calcular_pesos_modelo(1) [OF st' n]
  from peso_calcular [OF m assms(1,4), of d] assms(5)
  have "\<exists>pesos. map_of (modelo st') t = Some pesos \<and>
          map_of pesos d =
            Some ((1 + log 10 (real (count_list lista d))) *
                  log 10 (real (card (documentos st)) / real (card (set lista))))"
    by (simp add: peso_em_dict)
  moreover from assms(5) have "1 \<le> count_list lista d"
    using count_list_0_iff [of lista d] by (cases "count_list lista d") auto
  ultimately show ?thesis
    using st' by (auto simp: assms(3))
qed

theorem pesos_tfidf_witness:
  "\<exists>st' pesos. calcular_pesos
       \<lparr>lista_invertida = [(''cat'', [1::int, 1, 2]), (''dog'', [2])], documentos = {1, 2},
        modelo = [], normas_documentos = []\<rparr> = Inr st' \<and>
     map_of (modelo st') ''cat'' = Some pesos \<and>
     map_of pesos 1 =
       Some ((1 + log 10 (real (count_list [1::int, 1, 2] 1))) *
             log 10 (real (card (\<Union>(t, lista) \<in> set (lista_invertida
                \<lparr>lista_invertida = [(''cat'', [1::int, 1, 2]), (''dog'', [2])],
                 documentos = {1, 2}, modelo = [], normas_documentos = []\<rparr>). set lista))
                     / real (card (set [1::int, 1, 2])))) \<and>
     1 \<le> count_list [1::int, 1, 2] 1"
proof -
  let ?st = "\<lparr>lista_invertida = [(''cat'', [1::int, 1, 2]), (''dog'', [2])],
              documentos = {1, 2}, modelo = [], normas_documentos = []\<rparr>"
  have a: "distinct (map fst (lista_invertida ?st))"
    by simp
  have b: "\<forall>(t, lista) \<in> set (lista_invertida ?st). lista \<noteq> []"
    by simp
  have c: "documentos ?st = (\<Union>(t, lista) \<in> set (lista_invertida ?st). set lista)"
    by auto
  have e: "(''cat'', [1, 1, 2]) \<in> set (lista_invertida ?st)"
    by simp
  have f: "(1::int) \<in> set [1, 1, 2]"
    by simp
  from pesos_tfidf [OF a b c e f] show ?thesis .
qed

text \<open>
  C6, as stated, fails: a weight of zero is stored. With the inverted list
  \<open>{cat: [1, 1, 2], dog: [2]}\<close> the term \<open>cat\<close> occurs in both documents, its idf is 0, and
  the weight table holds the entries (cat, 1) and (cat, 2) with weight 0.
\<close>

theorem peso_zero_counterexample:
  "map_sum id modelo (calcular_pesos
      \<lparr>lista_invertida = [(''cat'', [1::int, 1, 2]), (''dog'', [2])], documentos = {1, 2},
       modelo = [], normas_documentos = []\<rparr>)
    = Inr [(''cat'', [(1, 0), (2, 0)]), (''dog'', [(2, log 10 2)])]"
  by (simp add: indexa_defs)

text \<open>
  C6, amended: the weight table holds an entry for exactly the pairs (t, d) with d in the
  sequence of t; every stored weight is non-negative, and it is zero exactly when t
  occurs in every document, in which case the zero is stored.
\<close>

theorem pesos_nao_negativos:
  assumes "distinct (map fst (lista_invertida st))"
    and "\<forall>(t, lista) \<in> set (lista_invertida st). lista \<noteq> []"
    and "documentos st = (\<Union>(t, lista) \<in> set (lista_invertida st). set lista)"
    and "modelo st = []"
  shows "\<exists>st'. calcular_pesos st = Inr st' \<and>
           (\<forall>t pesos d w. map_of (modelo st') t = Some pesos \<and> map_of pesos d = Some w \<longrightarrow>
              0 \<le> w \<and>
              (\<exists>lista. (t, lista) \<in> set (lista_invertida st) \<and> d \<in> set lista \<and>
                 (w = 0 \<longleftrightarrow> set lista = documentos st))) \<and>
           (\<forall>t lista d. (t, lista) \<in> set (lista_invertida st) \<and> d \<in> set lista \<longrightarrow>
              (\<exists>pesos w. map_of (modelo st') t = Some pesos \<and> map_of pesos d = Some w))"
proof -
  from calcular_pesos_retorna [OF assms(2)]
  obtain st' where st': "calcular_pesos st = Inr st'"
    by blast
  have fin: "finite (documentos st)"
    by (simp only: assms(3) documentos_finitos)
  show ?thesis
  proof (cases "card (documentos st) = 0")
    case True
    with fin have vazio: "documentos st = {}"
      by simp
    have "lista_invertida st = []"
    proof (cases "lista_invertida st")
      case Nil
      then show ?thesis .
    next
      case (Cons p li)
      obtain t lista where p: "p = (t, lista)" by (cases p)
      from assms(2) Cons p have "lista \<noteq> []" by simp
      then obtain d where "d \<in> set lista" by (cases lista) auto
      with Cons p have "d \<in> documentos st"
        by (simp add: assms(3))
      with vazio show ?thesis by simp
    qed
    moreover from True st' have "st' = st"
      by (simp add: calcular_pesos_def)
    ultimately show ?thesis
      using st' assms(4) by simp
  next
    case False
    note m = calcular_pesos_modelo(1) [OF st' False, unfolded assms(4)]
    have um: "0 \<le> w \<and> (\<exists>lista. (t, lista) \<in> set (lista_invertida st) \<and> d \<in> set lista \<and>
                 (w = 0 \<longleftrightarrow> set lista = documentos st))"
      if p: "map_of (modelo st') t = Some pesos" and w: "map_of pesos d = Some w"
      for t pesos d w
    proof -
      from p have "(t, pesos) \<in> set (modelo st')"
        by (rule map_of_SomeD)
      then have "t \<in> fst ` set (modelo st')"
        by (rule image_eqI [rotated]) simp
      with chaves_calcular [OF m] obtain lista where l: "(t, lista) \<in> set (lista_invertida st)"
        by auto
      from p w have "map_of (dict_get (modelo st') t []) d = Some w"
        by (simp add: peso_em_dict)
      with peso_calcular [OF m assms(1) l, of d]
      have d: "d \<in> set lista"
        and weq: "w = (1 + log 10 (real (count_list lista d))) *
                    log 10 (real (card (documentos st)) / real (card (set lista)))"
        by (auto simp: dict_get_vazio split: if_splits)
      from d have c: "1 \<le> count_list lista d"
        using count_list_0_iff [of lista d] by (cases "count_list lista d") auto
      from d have "0 < card (set lista)"
        by (auto simp: card_gt_0_iff)
      then have df: "1 \<le> card (set lista)"
        by simp
      from l have sub: "set lista \<subseteq> documentos st"
        by (auto simp: assms(3))
      with fin have le: "card (set lista) \<le> card (documentos st)"
        by (rule card_mono)
      have "card (set lista) = card (documentos st) \<longleftrightarrow> set lista = documentos st"
        using fin sub by (auto dest: card_subset_eq)
      with peso_sinal [OF c df le] l d weq show ?thesis
        by auto
    qed
    have dois: "\<exists>pesos w. map_of (modelo st') t = Some pesos \<and> map_of pesos d = Some w"
      if l: "(t, lista) \<in> set (lista_invertida st)" and d: "d \<in> set lista"
      for t lista d
      using peso_calcular [OF m assms(1) l, of d] d
      by (auto simp: peso_em_dict)
    from st' um dois show ?thesis
      by blast
  qed
qed

theorem pesos_nao_negativos_witness:
  "\<exists>st'. calcular_pesos
       \<lparr>lista_invertida = [(''cat'', [1::int, 1, 2]), (''dog'', [2])], documentos = {1, 2},
        modelo = [], normas_documentos = []\<rparr> = Inr st' \<and>
     map_of (modelo st') ''cat'' = Some [(1, 0), (2, 0)] \<and>
     (\<forall>t pesos d w. map_of (modelo st') t = Some pesos \<and> map_of pesos d = Some w \<longrightarrow> 0 \<le> w)"
proof -
  let ?st = "\<lparr>lista_invertida = [(''cat'', [1::int, 1, 2]), (''dog'', [2])],
              documentos = {1, 2}, modelo = [], normas_documentos = []\<rparr>"
  have a: "distinct (map fst (lista_invertida ?st))"
    by simp
  have b: "\<forall>(t, lista) \<in> set (lista_invertida ?st). lista \<noteq> []"
    by simp
  have c: "documentos ?st = (\<Union>(t, lista) \<in> set (lista_invertida ?st). set lista)"
    by auto
  have e: "modelo ?st = []"
    by simp
  have v: "map_sum id modelo (calcular_pesos ?st)
      = Inr [(''cat'', [(1, 0), (2, 0)]), (''dog'', [(2, log 10 2)])]"
    by (simp add: indexa_defs)
  from pesos_nao_negativos [OF a b c e] obtain st' where
    r: "calcular_pesos ?st = Inr st'" and
    p: "\<forall>t pesos d w. map_of (modelo st') t = Some pesos \<and> map_of pesos d = Some w \<longrightarrow> 0 \<le> w"
    by blast
  from v r have "map_of (modelo st') ''cat'' = Some [(1, 0), (2, 0)]"
    by simp
  with r p show ?thesis
    by blast
qed

text \<open>
  C2: started with an empty weight table and an empty norm table, \<open>_calcular_pesos\<close>
  returns with a norm table that has one entry for every document id of the weight
  table, and only one (its keys are pairwise different). The entry of d is the square
  root of the sum, over all the terms of the weight table, of the square of the weight of
  (t, d), a term without d counting 0. The norms are computed in a pass of its own, from
  the finished weight table.
\<close>

theorem normas_dos_documentos:
  assumes "\<forall>(t, lista) \<in> set (lista_invertida st). lista \<noteq> []"
    and "modelo st = []"
    and "normas_documentos st = []"
  shows "\<exists>st'. calcular_pesos st = Inr st' \<and>
           distinct (map fst (normas_documentos st')) \<and>
           (\<forall>t pesos d. (t, pesos) \<in> set (modelo st') \<and> d \<in> fst ` set pesos \<longrightarrow>
              map_of (normas_documentos st') d =
                Some (sqrt (\<Sum>(t, pesos)\<leftarrow>modelo st'.
                              case map_of pesos d of None \<Rightarrow> 0 | Some w \<Rightarrow> w ^ 2)))"
proof -
  from calcular_pesos_retorna [OF assms(1)]
  obtain st' where st': "calcular_pesos st = Inr st'"
    by blast
  show ?thesis
  proof (cases "card (documentos st) = 0")
    case True
    with st' have "st' = st"
      by (simp add: calcular_pesos_def)
    with st' assms(2,3) show ?thesis
      by simp
  next
    case False
    note m = calcular_pesos_modelo [OF st' False, unfolded assms(2,3)]
    have ext: "distinct (map fst (modelo st'))"
      by (rule distinct_calcular [OF m(1)]) simp
    have int: "\<forall>t. distinct (map fst (dict_get (modelo st') t []))"
      by (rule allI, rule interno_distinct_calcular [OF m(1)]) (simp add: dict_get_vazio)
    have "distinct (map fst (somar_quadrados (modelo st') [] (map fst (modelo st'))))"
      by (rule distinct_somar_quadrados) simp
    then have "distinct (map fst (normas_documentos st'))"
      by (simp add: m(2) tirar_raizes_eq case_prod_unfold o_def)
    moreover have "map_of (normas_documentos st') d =
        Some (sqrt (\<Sum>(t, pesos)\<leftarrow>modelo st'.
                      case map_of pesos d of None \<Rightarrow> 0 | Some w \<Rightarrow> w ^ 2))"
      if "(t, pesos) \<in> set (modelo st')" and "d \<in> fst ` set pesos" for t pesos d
      using norma_calculada [OF ext int that] by (simp only: m(2))
    ultimately show ?thesis
      using st' by blast
  qed
qed

theorem normas_dos_documentos_witness:
  "\<exists>st'. calcular_pesos
       \<lparr>lista_invertida = [(''cat'', [1::int, 1, 2]), (''dog'', [2])], documentos = {1, 2},
        modelo = [], normas_documentos = []\<rparr> = Inr st' \<and>
     modelo st' = [(''cat'', [(1, 0), (2, 0)]), (''dog'', [(2, log 10 2)])] \<and>
     distinct (map fst (normas_documentos st')) \<and>
     map_of (normas_documentos st') 2 =
       Some (sqrt (\<Sum>(t, pesos)\<leftarrow>modelo st'.
                     case map_of pesos 2 of None \<Rightarrow> 0 | Some w \<Rightarrow> w ^ 2))"
proof -
  let ?st = "\<lparr>lista_invertida = [(''cat'', [1::int, 1, 2]), (''dog'', [2])],
              documentos = {1, 2}, modelo = [], normas_documentos = []\<rparr>"
  have a: "\<forall>(t, lista) \<in> set (lista_invertida ?st). lista \<noteq> []"
    by simp
  have b: "modelo ?st = []"
    by simp
  have c: "normas_documentos ?st = []"
    by simp
  have v: "map_sum id modelo (calcular_pesos ?st)
      = Inr [(''cat'', [(1, 0), (2, 0)]), (''dog'', [(2, log 10 2)])]"
    by (simp add: indexa_defs)
  from normas_dos_documentos [OF a b c] obtain st' where
    r: "calcular_pesos ?st = Inr st'" and
    d: "distinct (map fst (normas_documentos st'))" and
    n: "\<forall>t pesos d. (t, pesos) \<in> set (modelo st') \<and> d \<in> fst ` set pesos \<longrightarrow>
              map_of (normas_documentos st') d =
                Some (sqrt (\<Sum>(t, pesos)\<leftarrow>modelo st'.
                              case map_of pesos d of None \<Rightarrow> 0 | Some w \<Rightarrow> w ^ 2))"
    by blast
  from v r have m: "modelo st' = [(''cat'', [(1, 0), (2, 0)]), (''dog'', [(2, log 10 2)])]"
    by simp
  then have "(''dog'', [(2, log 10 2)]) \<in> set (modelo st') \<and> 2 \<in> fst ` set [(2::int, log 10 2)]"
    by simp
  with n have "map_of (normas_documentos st') 2 =
       Some (sqrt (\<Sum>(t, pesos)\<leftarrow>modelo st'.
                     case map_of pesos 2 of None \<Rightarrow> 0 | Some w \<Rightarrow> w ^ 2))"
    by blast
  with r m d show ?thesis
    by blast
qed

text \<open>
  C8, as stated, fails: a negative document id is not rejected. \<open>ast.literal_eval\<close> turns
  the field \<open>[-1, 2]\<close> into the list of the integers -1 and 2 (the function given here
  does so; it is not asked about any other field), integers are hashable, and the run
  indexes the id -1 and writes the model.
\<close>

theorem id_negativo_counterexample:
  "executar
     (\<lambda>s. if s = ''[-1, 2]'' then Inr (Iteravel [Inteiro (- 1), Inteiro 2]) else Inl ValueError)
     valor_hashable
     (Some [[''Termo'', ''Documentos''], [''CAT'', ''[-1, 2]'']])
   = Some ([(''CAT'', [(Inteiro (- 1), 0), (Inteiro 2, 0)])],
           [(Inteiro (- 1), 0), (Inteiro 2, 0)])"
  by (simp add: executar_def carregar_lista_invertida_def carregar_linhas_dois
        indexador_init_def salvar_modelo_def indexa_defs)

text \<open>
  C8, amended: the run of the Indexador ends without a model file when a record of the
  inverted-list file does not have exactly two fields, when the evaluation of its
  occurrence list raises, when the value it evaluates to cannot be iterated, or when one
  of its elements is not hashable. Nothing else is checked, the sign of an id in
  particular: when there is at least one record and every record has two fields and an
  occurrence list that evaluates to a non-empty sequence of hashable ids, negative ones
  included, the run writes a model.
\<close>

theorem executar_rejeita_so_o_que_nao_carrega:
  "(linha \<in> set linhas \<and>
      ((\<forall>palavra s. linha \<noteq> [palavra, s]) \<or>
       (\<exists>palavra s e. linha = [palavra, s] \<and> literal_eval s = Inl e) \<or>
       (\<exists>palavra s. linha = [palavra, s] \<and> literal_eval s = Inr NaoIteravel) \<or>
       (\<exists>palavra s ds. linha = [palavra, s] \<and> literal_eval s = Inr (Iteravel ds) \<and>
          \<not> list_all hashable ds))
    \<longrightarrow> executar literal_eval hashable (Some (cabecalho # linhas)) = None) \<and>
   (linhas \<noteq> [] \<and>
      (\<forall>linha \<in> set linhas. \<exists>palavra s ds.
          linha = [palavra, s] \<and> literal_eval s = Inr (Iteravel ds) \<and>
          list_all hashable ds \<and> ds \<noteq> [])
    \<longrightarrow> (\<exists>m normas.
           executar literal_eval hashable (Some (cabecalho # linhas)) = Some (m, normas)
           \<and> m \<noteq> []))"
proof (intro conjI impI)
  assume a: "linha \<in> set linhas \<and>
      ((\<forall>palavra s. linha \<noteq> [palavra, s]) \<or>
       (\<exists>palavra s e. linha = [palavra, s] \<and> literal_eval s = Inl e) \<or>
       (\<exists>palavra s. linha = [palavra, s] \<and> literal_eval s = Inr NaoIteravel) \<or>
       (\<exists>palavra s ds. linha = [palavra, s] \<and> literal_eval s = Inr (Iteravel ds) \<and>
          \<not> list_all hashable ds))"
  then have dentro: "linha \<in> set linhas"
    by blast
  have "\<not> (\<exists>palavra s ds. linha = [palavra, s] \<and>
      literal_eval s = Inr (Iteravel ds) \<and> list_all hashable ds)"
  proof
    assume "\<exists>palavra s ds. linha = [palavra, s] \<and>
      literal_eval s = Inr (Iteravel ds) \<and> list_all hashable ds"
    then obtain palavra s ds where "linha = [palavra, s]"
      and "literal_eval s = Inr (Iteravel ds)" and "list_all hashable ds"
      by blast
    with a show False
      by simp
  qed
  with dentro show "executar literal_eval hashable (Some (cabecalho # linhas)) = None"
    by (rule executar_falha)
next
  assume "linhas \<noteq> [] \<and>
      (\<forall>linha \<in> set linhas. \<exists>palavra s ds.
          linha = [palavra, s] \<and> literal_eval s = Inr (Iteravel ds) \<and>
          list_all hashable ds \<and> ds \<noteq> [])"
  then show "\<exists>m normas.
      executar literal_eval hashable (Some (cabecalho # linhas)) = Some (m, normas) \<and> m \<noteq> []"
    using executar_aceita [of linhas literal_eval hashable cabecalho] by blast
qed

theorem executar_rejeita_so_o_que_nao_carrega_witness:
  "executar
     (\<lambda>s. if s = ''[-1, 2]'' then Inr (Iteravel [Inteiro (- 1), Inteiro 2])
          else if s = ''[[1, 2]]'' then Inr (Iteravel [Lista [Inteiro 1, Inteiro 2]])
          else Inl ValueError)
     valor_hashable
     (Some [[''Termo'', ''Documentos''], [''CAT'', ''[-1, 2]''], [''DOG'', ''[[1, 2]]'']])
     = None \<and>
   (\<exists>m normas.
      executar
        (\<lambda>s. if s = ''[-1, 2]'' then Inr (Iteravel [Inteiro (- 1), Inteiro 2])
             else if s = ''[[1, 2]]'' then Inr (Iteravel [Lista [Inteiro 1, Inteiro 2]])
             else Inl ValueError)
        valor_hashable
        (Some [[''Termo'', ''Documentos''], [''CAT'', ''[-1, 2]'']]) = Some (m, normas)
      \<and> m \<noteq> [])"
proof -
  define lit where "lit = (\<lambda>s. if s = ''[-1, 2]'' then Inr (Iteravel [Inteiro (- 1), Inteiro 2])
          else if s = ''[[1, 2]]'' then Inr (Iteravel [Lista [Inteiro 1, Inteiro 2]])
          else Inl ValueError)"
  have cat: "lit ''[-1, 2]'' = Inr (Iteravel [Inteiro (- 1), Inteiro 2])"
    by (simp add: lit_def)
  have dog: "lit ''[[1, 2]]'' = Inr (Iteravel [Lista [Inteiro 1, Inteiro 2]])"
    by (simp add: lit_def)
  have "[''DOG'', ''[[1, 2]]''] = [''DOG'', ''[[1, 2]]''] \<and>
      lit ''[[1, 2]]'' = Inr (Iteravel [Lista [Inteiro 1, Inteiro 2]]) \<and>
      \<not> list_all valor_hashable [Lista [Inteiro 1, Inteiro 2]]"
    using dog by simp
  then have "\<exists>palavra s ds. [''DOG'', ''[[1, 2]]''] = [palavra, s] \<and>
      lit s = Inr (Iteravel ds) \<and> \<not> list_all valor_hashable ds"
    by (intro exI)
  then have a: "[''DOG'', ''[[1, 2]]''] \<in> set [[''CAT'', ''[-1, 2]''], [''DOG'', ''[[1, 2]]'']] \<and>
      ((\<forall>palavra s. [''DOG'', ''[[1, 2]]''] \<noteq> [palavra, s]) \<or>
       (\<exists>palavra s e. [''DOG'', ''[[1, 2]]''] = [palavra, s] \<and> lit s = Inl e) \<or>
       (\<exists>palavra s. [''DOG'', ''[[1, 2]]''] = [palavra, s] \<and> lit s = Inr NaoIteravel) \<or>
       (\<exists>palavra s ds. [''DOG'', ''[[1, 2]]''] = [palavra, s] \<and> lit s = Inr (Iteravel ds) \<and>
          \<not> list_all valor_hashable ds))"
    by (intro conjI disjI2) simp
  have "[''CAT'', ''[-1, 2]''] = [''CAT'', ''[-1, 2]''] \<and>
      lit ''[-1, 2]'' = Inr (Iteravel [Inteiro (- 1), Inteiro 2]) \<and>
      list_all valor_hashable [Inteiro (- 1), Inteiro 2] \<and> [Inteiro (- 1), Inteiro 2] \<noteq> []"
    using cat by simp
  then have "\<exists>palavra s ds. [''CAT'', ''[-1, 2]''] = [palavra, s] \<and>
      lit s = Inr (Iteravel ds) \<and> list_all valor_hashable ds \<and> ds \<noteq> []"
    by (intro exI)
  then have b: "[[''CAT'', ''[-1, 2]'']] \<noteq> [] \<and>
      (\<forall>linha \<in> set [[''CAT'', ''[-1, 2]'']]. \<exists>palavra s ds.
          linha = [palavra, s] \<and> lit s = Inr (Iteravel ds) \<and>
          list_all valor_hashable ds \<and> ds \<noteq> [])"
    by simp
  have um: "executar lit valor_hashable
      (Some [[''Termo'', ''Documentos''], [''CAT'', ''[-1, 2]''], [''DOG'', ''[[1, 2]]'']]) = None"
    by (rule executar_rejeita_so_o_que_nao_carrega
         [of "[''DOG'', ''[[1, 2]]'']" "[[''CAT'', ''[-1, 2]''], [''DOG'', ''[[1, 2]]'']]" lit
             valor_hashable "[''Termo'', ''Documentos'']", THEN conjunct1, THEN mp])
       (rule a)
  have dois: "\<exists>m normas. executar lit valor_hashable
      (Some [[''Termo'', ''Documentos''], [''CAT'', ''[-1, 2]'']]) = Some (m, normas) \<and> m \<noteq> []"
    by (rule executar_rejeita_so_o_que_nao_carrega
         [of "[]" "[[''CAT'', ''[-1, 2]'']]" lit valor_hashable "[''Termo'', ''Documentos'']",
          THEN conjunct2, THEN mp])
       (rule b)
  from um dois show ?thesis
    unfolding lit_def by (rule conjI)
qed

end
